theory Spec2Isabelle
  imports Main "HOL-Library.Char_ord" "HOL-Library.List_Lexorder"
begin

section \<open>Data model of \<open>wikidata.py\<close>\<close>

text \<open>
  The program works on JSON documents of the Wikidata API. An identifier (\<open>"Q1047"\<close>,
  \<open>"P31"\<close>) is a string. The part of a snak's \<open>datavalue["value"]\<close> that the code reads
  is kept as a tagged value: the object of an item reference (with its \<open>"id"\<close>), the object of
  a quantity (with its \<open>"amount"\<close> and \<open>"unit"\<close>), the object of a time (with its \<open>"time"\<close>), a
  plain string, and Python's \<open>None\<close> (which only a missing label produces).
\<close>

type_synonym ident = string

datatype pyval =
    PNone
  | PStr string
  | PItem ident
  | PQuantity string string
  | PTime string

datatype error = KeyError | TypeError | IndexError | FileNotFoundError | RequestError

text \<open>
  A snak always carries \<open>"property"\<close>, \<open>"datatype"\<close> and \<open>"snaktype"\<close>; the key
  \<open>"datavalue"\<close> is present only when the snaktype is \<open>"value"\<close>, so it is optional here.
\<close>

record snak =
  property :: ident
  data_type :: string
  snaktype :: string
  datavalue :: "pyval option"

text \<open>
  A statement: \<open>"mainsnak"\<close>, the dictionary \<open>"qualifiers"\<close> (property identifier to list of
  snaks, in the dictionary's own order) and the list \<open>"qualifiers-order"\<close>. A statement
  without qualifiers has neither key; both are then empty here, which is what the code's
  \<open>claim.get(..., default)\<close> reads.
\<close>

record statement =
  mainsnak :: snak
  qualifiers :: "(ident \<times> snak list) list"
  qualifiers_order :: "ident list"

text \<open>
  An entity document: its \<open>"id"\<close>, \<open>labels\<close> (a language code to the text under
  \<open>"value"\<close>) and \<open>doc_claims\<close> (the key \<open>"claims"\<close>: a property identifier to its
  statements, in the dictionary's order). The keys \<open>"descriptions"\<close> and \<open>"aliases"\<close> are
  read only by the accessors of the same names, which nothing below calls, and are left out.
  These are the documents of the specification's data model, which always carry the three
  keys; what the API sends for an identifier unknown to it (an object with \<open>"id"\<close> and
  \<open>"missing"\<close> only, on which \<open>self.data["labels"]\<close> raises) is not among them.
\<close>

record doc =
  doc_id :: ident
  labels :: "(string \<times> string) list"
  doc_claims :: "(ident \<times> statement list) list"

text \<open>
  The world the program acts on: the directory \<open>data/\<close> as a map from identifier to the
  document stored in \<open>data/<id>.json\<close>, and two logs of what has happened so far: the
  HTTP requests issued, each with the identifiers it asked for, and the calls of
  \<open>get_entities\<close>, each with its argument. The program keeps neither log; they are here
  to state what it does. The remote service is a parameter \<open>api\<close>: for the identifiers of
  one request it gives \<open>result.json()["entities"].values()\<close>, or the exception that
  \<open>requests.get\<close> or the lookup of \<open>"entities"\<close> raises.
\<close>

record world =
  cache :: "ident \<Rightarrow> doc option"
  requests :: "ident list list"
  resolved :: "ident list list"

type_synonym remote = "ident list \<Rightarrow> error + doc list"

section \<open>Constants\<close>

definition LANGUAGE :: string where
  "LANGUAGE = ''en''"

definition WIKIBASE_ITEM_DATA_TYPE :: string where
  "WIKIBASE_ITEM_DATA_TYPE = ''wikibase-item''"

definition WIKIBASE_API_MAX_IDS :: nat where
  "WIKIBASE_API_MAX_IDS = 50"

definition INTERESTING_DATA_TYPES :: "string list" where
  "INTERESTING_DATA_TYPES = [''time'', ''quantity'', ''string'', WIKIBASE_ITEM_DATA_TYPE]"

section \<open>The resolver \<open>get_entities\<close>\<close>

text \<open>
  \<open>json.dump(entity, ..., sort_keys=True)\<close> writes every dictionary with its keys in
  sorted order, and \<open>json.load\<close> reads a dictionary in the order of the file. So the
  document that is read from a file the program wrote has the dictionaries \<open>"labels"\<close>,
  \<open>"claims"\<close> and, in every statement, \<open>"qualifiers"\<close> sorted by key; lists such as
  \<open>"qualifiers-order"\<close> keep their order. Python compares strings code point by code
  point, a proper prefix first, as the lexicographic order on \<open>string\<close> does. (The keys of
  a dictionary are distinct; the sort is stable, so it does not matter here.)
\<close>

definition sort_keys :: "(string \<times> 'a) list \<Rightarrow> (string \<times> 'a) list" where
  "sort_keys kvs = sort_key fst kvs"

definition dump_statement :: "statement \<Rightarrow> statement" where
  "dump_statement claim = claim\<lparr>qualifiers := sort_keys (qualifiers claim)\<rparr>"

definition json_dump :: "doc \<Rightarrow> doc" where
  "json_dump entity =
     entity\<lparr>labels := sort_keys (labels entity),
            doc_claims := sort_keys (map (\<lambda>kv. (fst kv, map dump_statement (snd kv)))
                                         (doc_claims entity))\<rparr>"

text \<open>
  \<open>store_entites_locally\<close> writes each entity to the file named by its own \<open>"id"\<close>; a later
  entity with the same identifier overwrites an earlier one. The cache holds what a later
  \<open>json.load\<close> of the file gives.
\<close>

fun store_entites_locally :: "(ident \<Rightarrow> doc option) \<Rightarrow> doc list \<Rightarrow> (ident \<Rightarrow> doc option)" where
  "store_entites_locally c [] = c"
| "store_entites_locally c (entity # entities) =
     store_entites_locally (c(doc_id entity \<mapsto> json_dump entity)) entities"

text \<open>
  \<open>fetch_batch\<close> issues one request for the chunk and stores what comes back. An exception
  of the request leaves the cache as it was.
\<close>

definition fetch_batch :: "remote \<Rightarrow> world \<Rightarrow> ident list \<Rightarrow> (error + unit) \<times> world" where
  "fetch_batch api w ids =
     (let w1 = w\<lparr>requests := requests w @ [ids]\<rparr> in
      case api ids of
        Inl e \<Rightarrow> (Inl e, w1)
      | Inr entities \<Rightarrow> (Inr (), w1\<lparr>cache := store_entites_locally (cache w1) entities\<rparr>))"

text \<open>Python's \<open>range(start, stop, step)\<close> for a positive step.\<close>

function py_range :: "nat \<Rightarrow> nat \<Rightarrow> nat \<Rightarrow> nat list" where
  "py_range start stop step =
     (if start < stop \<and> 0 < step then start # py_range (start + step) stop step else [])"
  by pat_completeness auto
termination
  by (relation "measure (\<lambda>(start, stop, step). stop - start)") auto

declare py_range.simps [simp del]

text \<open>
  \<open>batches\<close> yields \<open>ids[ii : ii + WIKIBASE_API_MAX_IDS]\<close> for \<open>ii\<close> in
  \<open>range(0, len(ids), WIKIBASE_API_MAX_IDS)\<close>. A Python slice never raises: it is cut at the
  end of the list, as \<open>take\<close> and \<open>drop\<close> are.
\<close>

definition batches :: "'a list \<Rightarrow> 'a list list" where
  "batches ids =
     map (\<lambda>ii. take WIKIBASE_API_MAX_IDS (drop ii ids))
         (py_range 0 (length ids) WIKIBASE_API_MAX_IDS)"

text \<open>
  \<open>get_non_local_ids\<close>: the loop appends to \<open>non_local_ids\<close> every identifier whose file does
  not exist; the accumulator is the list built so far.
\<close>

fun non_local_loop :: "(ident \<Rightarrow> doc option) \<Rightarrow> ident list \<Rightarrow> ident list \<Rightarrow> ident list" where
  "non_local_loop c [] non_local_ids = non_local_ids"
| "non_local_loop c (i # ids) non_local_ids =
     non_local_loop c ids (if c i = None then non_local_ids @ [i] else non_local_ids)"

definition get_non_local_ids :: "(ident \<Rightarrow> doc option) \<Rightarrow> ident list \<Rightarrow> ident list" where
  "get_non_local_ids c ids = non_local_loop c ids []"

text \<open>
  \<open>get_local_entities\<close>: \<open>open(file_path)\<close> raises \<open>FileNotFoundError\<close> for an identifier
  with no file, and the call is abandoned there.
\<close>

fun local_loop :: "(ident \<Rightarrow> doc option) \<Rightarrow> ident list \<Rightarrow> doc list \<Rightarrow> error + doc list" where
  "local_loop c [] entities = Inr entities"
| "local_loop c (i # ids) entities =
     (case c i of
        None \<Rightarrow> Inl FileNotFoundError
      | Some entity \<Rightarrow> local_loop c ids (entities @ [entity]))"

definition get_local_entities :: "(ident \<Rightarrow> doc option) \<Rightarrow> ident list \<Rightarrow> error + doc list" where
  "get_local_entities c ids = local_loop c ids []"

text \<open>
  The line
  \<^verbatim>\<open>itertools.chain(*(fetch_batch(chunk) for chunk in batches(nonlocal_ids)))\<close>
  unpacks the generator expression with \<open>*\<close>: Python builds the argument tuple of a call
  before the call, so the generator is run to its end there and \<open>fetch_batch\<close> is called for
  every chunk, in order, until one raises. Each call returns \<open>None\<close>; \<open>itertools.chain\<close> only
  stores its arguments, and the chain object is dropped without being iterated, so nothing
  else happens on that line. \<open>fetch_chunks\<close> is that run of the generator.
\<close>

fun fetch_chunks :: "remote \<Rightarrow> world \<Rightarrow> ident list list \<Rightarrow> (error + unit) \<times> world" where
  "fetch_chunks api w [] = (Inr (), w)"
| "fetch_chunks api w (chunk # chunks) =
     (case fetch_batch api w chunk of
        (Inl e, w1) \<Rightarrow> (Inl e, w1)
      | (Inr u, w1) \<Rightarrow> fetch_chunks api w1 chunks)"

definition get_entities :: "remote \<Rightarrow> world \<Rightarrow> ident list \<Rightarrow> (error + doc list) \<times> world" where
  "get_entities api w ids =
     (let nonlocal_ids = get_non_local_ids (cache w) ids in
      case fetch_chunks api (w\<lparr>resolved := resolved w @ [ids]\<rparr>) (batches nonlocal_ids) of
        (Inl e, w1) \<Rightarrow> (Inl e, w1)
      | (Inr u, w1) \<Rightarrow> (get_local_entities (cache w1) ids, w1))"

section \<open>The class \<open>Entity\<close>\<close>

text \<open>
  \<open>snak["datavalue"]["value"]["id"]\<close> and the reads of \<open>"amount"\<close> and \<open>"time"\<close>: a missing
  \<open>"datavalue"\<close> and an object without the key raise \<open>KeyError\<close>, a string or \<open>None\<close>
  subscripted by a string raises \<open>TypeError\<close>.
\<close>

fun value_id :: "pyval \<Rightarrow> error + ident" where
  "value_id (PItem i) = Inr i"
| "value_id (PQuantity a u) = Inl KeyError"
| "value_id (PTime t) = Inl KeyError"
| "value_id (PStr s) = Inl TypeError"
| "value_id PNone = Inl TypeError"

fun value_amount :: "pyval \<Rightarrow> error + string" where
  "value_amount (PQuantity a u) = Inr a"
| "value_amount (PItem i) = Inl KeyError"
| "value_amount (PTime t) = Inl KeyError"
| "value_amount (PStr s) = Inl TypeError"
| "value_amount PNone = Inl TypeError"

fun value_time :: "pyval \<Rightarrow> error + string" where
  "value_time (PTime t) = Inr t"
| "value_time (PItem i) = Inl KeyError"
| "value_time (PQuantity a u) = Inl KeyError"
| "value_time (PStr s) = Inl TypeError"
| "value_time PNone = Inl TypeError"

definition snak_value :: "snak \<Rightarrow> error + pyval" where
  "snak_value s = (case datavalue s of None \<Rightarrow> Inl KeyError | Some v \<Rightarrow> Inr v)"

definition snak_value_id :: "snak \<Rightarrow> error + ident" where
  "snak_value_id s = (case snak_value s of Inl e \<Rightarrow> Inl e | Inr v \<Rightarrow> value_id v)"

subsection \<open>\<open>load_dependencies\<close>\<close>

text \<open>
  The three nested loops of \<open>load_dependencies\<close>, innermost first; \<open>dependencies\<close> is the
  list the code appends to. \<open>continue\<close> goes on with the next element and the list
  unchanged.
\<close>

fun qualifier_loop :: "snak list \<Rightarrow> ident list \<Rightarrow> error + ident list" where
  "qualifier_loop [] dependencies = Inr dependencies"
| "qualifier_loop (qualifier # rest) dependencies =
     (if snaktype qualifier \<noteq> ''value'' then qualifier_loop rest dependencies
      else if data_type qualifier = WIKIBASE_ITEM_DATA_TYPE then
        (case snak_value_id qualifier of
           Inl e \<Rightarrow> Inl e
         | Inr i \<Rightarrow> qualifier_loop rest (dependencies @ [property qualifier] @ [i]))
      else qualifier_loop rest (dependencies @ [property qualifier]))"

fun claim_loop :: "statement list \<Rightarrow> ident list \<Rightarrow> error + ident list" where
  "claim_loop [] dependencies = Inr dependencies"
| "claim_loop (claim # rest) dependencies =
     (if data_type (mainsnak claim) \<notin> set INTERESTING_DATA_TYPES then claim_loop rest dependencies
      else
        (case (if data_type (mainsnak claim) = WIKIBASE_ITEM_DATA_TYPE then
                 (case snak_value_id (mainsnak claim) of
                    Inl e \<Rightarrow> Inl e
                  | Inr i \<Rightarrow> Inr (dependencies @ [property (mainsnak claim)] @ [i]))
               else Inr (dependencies @ [property (mainsnak claim)])) of
           Inl e \<Rightarrow> Inl e
         | Inr dependencies1 \<Rightarrow>
             (case qualifier_loop (concat (map snd (qualifiers claim))) dependencies1 of
                Inl e \<Rightarrow> Inl e
              | Inr dependencies2 \<Rightarrow> claim_loop rest dependencies2)))"

fun properties_loop :: "(ident \<times> statement list) list \<Rightarrow> ident list \<Rightarrow> error + ident list" where
  "properties_loop [] dependencies = Inr dependencies"
| "properties_loop (kv # rest) dependencies =
     (case claim_loop (snd kv) dependencies of
        Inl e \<Rightarrow> Inl e
      | Inr dependencies1 \<Rightarrow> properties_loop rest dependencies1)"

text \<open>The list \<open>dependencies\<close> as it stands when the loops are over.\<close>

definition dependencies_of :: "doc \<Rightarrow> error + ident list" where
  "dependencies_of d = properties_loop (doc_claims d) []"

definition load_dependencies :: "remote \<Rightarrow> world \<Rightarrow> doc \<Rightarrow> (error + unit) \<times> world" where
  "load_dependencies api w d =
     (case dependencies_of d of
        Inl e \<Rightarrow> (Inl e, w)
      | Inr dependencies \<Rightarrow>
          (case get_entities api w dependencies of
             (Inl e, w1) \<Rightarrow> (Inl e, w1)
           | (Inr entities, w1) \<Rightarrow> (Inr (), w1)))"

subsection \<open>Construction and \<open>label\<close>\<close>

definition load_entity :: "remote \<Rightarrow> world \<Rightarrow> ident \<Rightarrow> (error + doc) \<times> world" where
  "load_entity api w entity_id =
     (case get_entities api w [entity_id] of
        (Inl e, w1) \<Rightarrow> (Inl e, w1)
      | (Inr entities, w1) \<Rightarrow>
          (case entities of [] \<Rightarrow> (Inl IndexError, w1) | entity # _ \<Rightarrow> (Inr entity, w1)))"

text \<open>An \<open>Entity\<close> object holds nothing but \<open>self.data\<close>, so the object is its document.\<close>

definition Entity :: "remote \<Rightarrow> world \<Rightarrow> ident \<Rightarrow> bool \<Rightarrow> (error + doc) \<times> world" where
  "Entity api w entity_id deep =
     (case load_entity api w entity_id of
        (Inl e, w1) \<Rightarrow> (Inl e, w1)
      | (Inr d, w1) \<Rightarrow>
          (if deep then
             (case load_dependencies api w1 d of
                (Inl e, w2) \<Rightarrow> (Inl e, w2)
              | (Inr u, w2) \<Rightarrow> (Inr d, w2))
           else (Inr d, w1)))"

text \<open>\<open>self.data["labels"].get(LANGUAGE, {}).get("value")\<close>: the text, or \<open>None\<close>.\<close>

definition label :: "doc \<Rightarrow> string option" where
  "label d = map_of (labels d) LANGUAGE"

definition label_value :: "string option \<Rightarrow> pyval" where
  "label_value l = (case l of None \<Rightarrow> PNone | Some text \<Rightarrow> PStr text)"

subsection \<open>\<open>parse_snak\<close> and \<open>claims\<close>\<close>

text \<open>
  \<open>parse_snak\<close> returns \<open>None\<close> or the tuple \<open>(property, value)\<close>. Both \<open>Entity(...)\<close>
  constructions are shallow (\<open>deep\<close> is left at its default \<open>False\<close>), and only \<open>label\<close> is
  read from them.
\<close>

definition parse_snak ::
  "remote \<Rightarrow> world \<Rightarrow> snak \<Rightarrow> (error + (string option \<times> pyval) option) \<times> world" where
  "parse_snak api w s =
     (if data_type s \<notin> set INTERESTING_DATA_TYPES then (Inr None, w)
      else if snaktype s \<noteq> ''value'' then (Inr None, w)
      else
        (case Entity api w (property s) False of
           (Inl e, w1) \<Rightarrow> (Inl e, w1)
         | (Inr p, w1) \<Rightarrow>
             (case snak_value s of
                Inl e \<Rightarrow> (Inl e, w1)
              | Inr v \<Rightarrow>
                  (if data_type s = WIKIBASE_ITEM_DATA_TYPE then
                     (case value_id v of
                        Inl e \<Rightarrow> (Inl e, w1)
                      | Inr i \<Rightarrow>
                          (case Entity api w1 i False of
                             (Inl e, w2) \<Rightarrow> (Inl e, w2)
                           | (Inr d, w2) \<Rightarrow> (Inr (Some (label p, label_value (label d))), w2)))
                   else if data_type s = ''amount'' then
                     (case value_amount v of
                        Inl e \<Rightarrow> (Inl e, w1)
                      | Inr a \<Rightarrow> (Inr (Some (label p, PStr a)), w1))
                   else if data_type s = ''time'' then
                     (case value_time v of
                        Inl e \<Rightarrow> (Inl e, w1)
                      | Inr t \<Rightarrow> (Inr (Some (label p, PStr t)), w1))
                   else (Inr (Some (label p, v)), w1)))))"

text \<open>
  What \<open>claims\<close> yields: the two-element tuple of \<open>parse_snak\<close>, or the three-element tuple
  with the list of qualifier tuples.
\<close>

datatype claim_tuple =
    Tuple2 "string option" pyval
  | Tuple3 "string option" pyval "(string option \<times> pyval) list"

text \<open>The inner loop over the snaks of one qualifier group, appending to \<open>qualifiers\<close>.\<close>

fun snaks_loop ::
  "remote \<Rightarrow> world \<Rightarrow> snak list \<Rightarrow> (string option \<times> pyval) list \<Rightarrow>
   (error + (string option \<times> pyval) list) \<times> world" where
  "snaks_loop api w [] qs = (Inr qs, w)"
| "snaks_loop api w (qualifier_snak # rest) qs =
     (case parse_snak api w qualifier_snak of
        (Inl e, w1) \<Rightarrow> (Inl e, w1)
      | (Inr None, w1) \<Rightarrow> snaks_loop api w1 rest qs
      | (Inr (Some qualifier), w1) \<Rightarrow> snaks_loop api w1 rest (qs @ [qualifier]))"

text \<open>
  The loop over \<open>claim.get("qualifiers-order", [])\<close>; \<open>claim["qualifiers"][qualifier_id]\<close>
  raises \<open>KeyError\<close> when the statement has no such group.
\<close>

fun order_loop ::
  "remote \<Rightarrow> world \<Rightarrow> statement \<Rightarrow> ident list \<Rightarrow> (string option \<times> pyval) list \<Rightarrow>
   (error + (string option \<times> pyval) list) \<times> world" where
  "order_loop api w claim [] qs = (Inr qs, w)"
| "order_loop api w claim (qualifier_id # rest) qs =
     (case map_of (qualifiers claim) qualifier_id of
        None \<Rightarrow> (Inl KeyError, w)
      | Some snaks \<Rightarrow>
          (case snaks_loop api w snaks qs of
             (Inl e, w1) \<Rightarrow> (Inl e, w1)
           | (Inr qs1, w1) \<Rightarrow> order_loop api w1 claim rest qs1))"

text \<open>
  The generator \<open>claims\<close>, run to its end as the driver's \<open>for\<close> loop runs it: the tuples
  yielded, in order, or the exception that ended the run.
\<close>

fun claims_loop ::
  "remote \<Rightarrow> world \<Rightarrow> statement list \<Rightarrow> (error + claim_tuple list) \<times> world" where
  "claims_loop api w [] = (Inr [], w)"
| "claims_loop api w (claim # rest) =
     (case parse_snak api w (mainsnak claim) of
        (Inl e, w1) \<Rightarrow> (Inl e, w1)
      | (Inr None, w1) \<Rightarrow> claims_loop api w1 rest
      | (Inr (Some snak), w1) \<Rightarrow>
          (case order_loop api w1 claim (qualifiers_order claim) [] of
             (Inl e, w2) \<Rightarrow> (Inl e, w2)
           | (Inr qs, w2) \<Rightarrow>
               (case claims_loop api w2 rest of
                  (Inl e, w3) \<Rightarrow> (Inl e, w3)
                | (Inr yielded, w3) \<Rightarrow>
                    (Inr ((if qs \<noteq> [] then Tuple3 (fst snak) (snd snak) qs
                           else Tuple2 (fst snak) (snd snak)) # yielded), w3))))"

definition claims :: "remote \<Rightarrow> world \<Rightarrow> doc \<Rightarrow> (error + claim_tuple list) \<times> world" where
  "claims api w d = claims_loop api w (concat (map snd (doc_claims d)))"

section \<open>Auxiliary notions and example data\<close>

text \<open>
  The documents the remote delivers for a list of chunks, in the order of delivery
  (nothing for a request that raises).
\<close>

definition delivered :: "remote \<Rightarrow> ident list list \<Rightarrow> doc list" where
  "delivered api chunks =
     concat (map (\<lambda>chunk. case api chunk of Inl e \<Rightarrow> [] | Inr entities \<Rightarrow> entities) chunks)"

text \<open>
  The cache after a list of documents has been delivered, said without the loop that
  stores them: under an identifier sits what is read back of the last delivered document
  with that identifier, and what was there before when no delivered document has it.
\<close>

definition last_delivered :: "doc list \<Rightarrow> ident \<Rightarrow> doc option" where
  "last_delivered ds i = List.find (\<lambda>d. doc_id d = i) (rev ds)"

definition cache_after :: "(ident \<Rightarrow> doc option) \<Rightarrow> doc list \<Rightarrow> ident \<Rightarrow> doc option" where
  "cache_after c ds i =
     (case last_delivered ds i of None \<Rightarrow> c i | Some d \<Rightarrow> Some (json_dump d))"

text \<open>The remote answers the request for a chunk (the request does not raise).\<close>

definition answers :: "remote \<Rightarrow> ident list \<Rightarrow> bool" where
  "answers api chunk = (case api chunk of Inl e \<Rightarrow> False | Inr entities \<Rightarrow> True)"

text \<open>The chunks of missing identifiers that a call of \<open>get_entities\<close> iterates over.\<close>

definition fetch_plan :: "world \<Rightarrow> ident list \<Rightarrow> ident list list" where
  "fetch_plan w ids = batches (get_non_local_ids (cache w) ids)"

text \<open>
  Example data: a remote that answers every identifier with a document labelled by the
  identifier itself, a remote that is down, and the world with an empty \<open>data/\<close> directory.
\<close>

definition plain_doc :: "ident \<Rightarrow> doc" where
  "plain_doc i = \<lparr>doc_id = i, labels = [(''en'', i)], doc_claims = []\<rparr>"

definition echo_api :: remote where
  "echo_api ids = Inr (map plain_doc ids)"

definition down_api :: remote where
  "down_api ids = Inl RequestError"

definition empty_world :: world where
  "empty_world = \<lparr>cache = (\<lambda>i. None), requests = [], resolved = []\<rparr>"

text \<open>
  The statements of a document in the order \<open>itertools.chain(*claims.values())\<close> gives
  them, and the qualifier snaks of a statement in the order of \<open>"qualifiers-order"\<close> (a
  group the statement does not have contributes nothing).
\<close>

definition doc_statements :: "doc \<Rightarrow> statement list" where
  "doc_statements d = concat (map snd (doc_claims d))"

definition ordered_qualifier_snaks :: "statement \<Rightarrow> snak list" where
  "ordered_qualifier_snaks claim =
     concat (map (\<lambda>qualifier_id. case map_of (qualifiers claim) qualifier_id of
                                   None \<Rightarrow> [] | Some snaks \<Rightarrow> snaks)
                 (qualifiers_order claim))"

text \<open>The number of snaks \<open>claims\<close> can come to normalize in a document.\<close>

definition snak_count :: "doc \<Rightarrow> nat" where
  "snak_count d =
     sum_list (map (\<lambda>claim. Suc (length (ordered_qualifier_snaks claim))) (doc_statements d))"

text \<open>A document references an identifier when the main snak of a statement has it as value.\<close>

definition references :: "doc \<Rightarrow> ident \<Rightarrow> bool" where
  "references d i =
     list_ex (\<lambda>claim. datavalue (mainsnak claim) = Some (PItem i)) (doc_statements d)"

text \<open>
  The second world is reached from the first with at most \<open>k\<close> more calls of the resolver
  and at most \<open>k\<close> more requests.
\<close>

definition within :: "nat \<Rightarrow> world \<Rightarrow> world \<Rightarrow> bool" where
  "within k w w' =
     (length (resolved w') \<le> length (resolved w) + k
      \<and> length (requests w') \<le> length (requests w) + k)"

subsection \<open>The dependency list in the specification's words\<close>

text \<open>
  For a snak: its property identifier, plus the referenced identifier when the datatype
  is the item-reference type. For a statement whose main snak has an interesting
  datatype: the identifiers of the main snak, then those of every qualifier snak with
  snaktype \<open>value\<close>; for any other statement nothing. For a document: these lists, statement
  after statement.
\<close>

definition referenced :: "snak \<Rightarrow> ident list" where
  "referenced s = (case datavalue s of Some (PItem i) \<Rightarrow> [i] | _ \<Rightarrow> [])"

definition snak_ids :: "snak \<Rightarrow> ident list" where
  "snak_ids s =
     property s # (if data_type s = WIKIBASE_ITEM_DATA_TYPE then referenced s else [])"

definition value_qualifiers :: "statement \<Rightarrow> snak list" where
  "value_qualifiers claim =
     filter (\<lambda>qualifier. snaktype qualifier = ''value'') (concat (map snd (qualifiers claim)))"

definition statement_ids :: "statement \<Rightarrow> ident list" where
  "statement_ids claim =
     (if data_type (mainsnak claim) \<in> set INTERESTING_DATA_TYPES
      then snak_ids (mainsnak claim) @ concat (map snak_ids (value_qualifiers claim))
      else [])"

definition document_ids :: "doc \<Rightarrow> ident list" where
  "document_ids d = concat (map statement_ids (doc_statements d))"

text \<open>
  A snak whose reference can be read: of the item-reference type only with an item object
  as value. A statement is readable when the snaks that \<open>load_dependencies\<close> reads are.
\<close>

definition reference_readable :: "snak \<Rightarrow> bool" where
  "reference_readable s =
     (if data_type s = WIKIBASE_ITEM_DATA_TYPE
      then (case datavalue s of Some (PItem i) \<Rightarrow> True | _ \<Rightarrow> False)
      else True)"

definition statement_readable :: "statement \<Rightarrow> bool" where
  "statement_readable claim =
     (if data_type (mainsnak claim) \<in> set INTERESTING_DATA_TYPES
      then reference_readable (mainsnak claim)
           \<and> list_all reference_readable (value_qualifiers claim)
      else True)"

subsection \<open>The claims sequence in the specification's words\<close>










subsection \<open>Example documents\<close>

definition item_snak :: "ident \<Rightarrow> ident \<Rightarrow> snak" where
  "item_snak p q =
     \<lparr>property = p, data_type = ''wikibase-item'', snaktype = ''value'',
      datavalue = Some (PItem q)\<rparr>"

definition unqualified :: "snak \<Rightarrow> statement" where
  "unqualified s = \<lparr>mainsnak = s, qualifiers = [], qualifiers_order = []\<rparr>"

text \<open>Two entities that reference each other, and the property of the two statements.\<close>

definition doc_A :: doc where
  "doc_A = \<lparr>doc_id = ''Q1'', labels = [(''en'', ''A'')],
            doc_claims = [(''P1'', [unqualified (item_snak ''P1'' ''Q2'')])]\<rparr>"

definition doc_B :: doc where
  "doc_B = \<lparr>doc_id = ''Q2'', labels = [(''en'', ''B'')],
            doc_claims = [(''P1'', [unqualified (item_snak ''P1'' ''Q1'')])]\<rparr>"

definition doc_P :: doc where
  "doc_P = \<lparr>doc_id = ''P1'', labels = [(''en'', ''knows'')], doc_claims = []\<rparr>"

definition cycle_api :: remote where
  "cycle_api ids =
     Inr (List.map_filter
            ((\<lambda>i. None)(''Q1'' \<mapsto> doc_A, ''Q2'' \<mapsto> doc_B, ''P1'' \<mapsto> doc_P)) ids)"

text \<open>Snaks: a quantity, an external identifier, a time, and two without a value.\<close>

definition quantity_snak :: snak where
  "quantity_snak =
     \<lparr>property = ''P1082'', data_type = ''quantity'', snaktype = ''value'',
      datavalue = Some (PQuantity ''+1'' ''1'')\<rparr>"

definition external_snak :: snak where
  "external_snak =
     \<lparr>property = ''P214'', data_type = ''external-id'', snaktype = ''value'',
      datavalue = Some (PStr ''113230702'')\<rparr>"

definition time_snak :: snak where
  "time_snak =
     \<lparr>property = ''P580'', data_type = ''time'', snaktype = ''value'',
      datavalue = Some (PTime ''+1947-08-15T00:00:00Z'')\<rparr>"

definition novalue_snak :: snak where
  "novalue_snak =
     \<lparr>property = ''P40'', data_type = ''wikibase-item'', snaktype = ''novalue'',
      datavalue = None\<rparr>"

definition somevalue_snak :: snak where
  "somevalue_snak =
     \<lparr>property = ''P582'', data_type = ''time'', snaktype = ''somevalue'',
      datavalue = None\<rparr>"

text \<open>
  Documents: one whose only main snak has no value; one with a statement that has two
  qualifier groups, the second without a value; one with the same property in two
  statements; one whose main snak is an external identifier qualified by a time.
\<close>

definition novalue_doc :: doc where
  "novalue_doc = \<lparr>doc_id = ''Q9'', labels = [],
                  doc_claims = [(''P40'', [unqualified novalue_snak])]\<rparr>"

definition office_statement :: statement where
  "office_statement =
     \<lparr>mainsnak = item_snak ''P39'' ''Q11'',
      qualifiers = [(''P580'', [time_snak]), (''P40'', [novalue_snak])],
      qualifiers_order = [''P580'', ''P40'']\<rparr>"

definition office_doc :: doc where
  "office_doc = \<lparr>doc_id = ''Q1047'', labels = [(''en'', ''Nehru'')],
                 doc_claims = [(''P39'', [office_statement]),
                               (''P214'', [unqualified external_snak]),
                               (''P31'', [unqualified (item_snak ''P31'' ''Q5'')])]\<rparr>"

definition repeat_doc :: doc where
  "repeat_doc = \<lparr>doc_id = ''Q1'', labels = [],
                 doc_claims = [(''P31'', [unqualified (item_snak ''P31'' ''Q5''),
                                          unqualified (item_snak ''P31'' ''Q6'')])]\<rparr>"

definition skipped_doc :: doc where
  "skipped_doc = \<lparr>doc_id = ''Q1'', labels = [],
                  doc_claims = [(''P214'', [\<lparr>mainsnak = external_snak,
                                             qualifiers = [(''P580'', [time_snak])],
                                             qualifiers_order = [''P580'']\<rparr>])]\<rparr>"


text \<open>
  A document as a remote may send it, with the keys of \<open>"labels"\<close> and \<open>"claims"\<close> out of
  order, and the same document as it is read back from its file; a remote that knows only
  this document and sends one document per identifier it knows among those asked for; a
  world in which \<open>Q2\<close> alone is in the cache; and 51 identifiers \<open>Q\<close>, \<open>Q1\<close>, \<open>Q11\<close>, ...
\<close>

definition unsorted_doc :: doc where
  "unsorted_doc =
     \<lparr>doc_id = ''Q1'', labels = [(''en'', ''A''), (''de'', ''Ah'')],
      doc_claims = [(''P31'', [unqualified (item_snak ''P31'' ''Q5'')]),
                    (''P1'', [unqualified (item_snak ''P1'' ''Q2'')])]\<rparr>"

definition sorted_doc :: doc where
  "sorted_doc =
     \<lparr>doc_id = ''Q1'', labels = [(''de'', ''Ah''), (''en'', ''A'')],
      doc_claims = [(''P1'', [unqualified (item_snak ''P1'' ''Q2'')]),
                    (''P31'', [unqualified (item_snak ''P31'' ''Q5'')])]\<rparr>"

definition unsorted_api :: remote where
  "unsorted_api ids =
     Inr (List.map_filter ((\<lambda>i. None)(''Q1'' \<mapsto> unsorted_doc)) (remdups ids))"

definition half_world :: world where
  "half_world = \<lparr>cache = (\<lambda>i. None)(''Q2'' \<mapsto> doc_B), requests = [], resolved = []\<rparr>"

definition many_ids :: "ident list" where
  "many_ids = map (\<lambda>n. CHR ''Q'' # replicate n CHR ''1'') [0..<51]"

section \<open>The loops of the resolver\<close>

lemma non_local_loop_filter:
  "non_local_loop c ids non_local_ids = non_local_ids @ filter (\<lambda>i. c i = None) ids"
  by (induction ids arbitrary: non_local_ids) auto

lemma get_non_local_ids_filter: "get_non_local_ids c ids = filter (\<lambda>i. c i = None) ids"
  by (simp add: get_non_local_ids_def non_local_loop_filter)

lemma local_loop_present:
  "\<forall>i\<in>set ids. c i \<noteq> None \<Longrightarrow>
   local_loop c ids entities = Inr (entities @ map (\<lambda>i. the (c i)) ids)"
  by (induction ids arbitrary: entities) auto

lemma local_loop_absent:
  "i \<in> set ids \<Longrightarrow> c i = None \<Longrightarrow> local_loop c ids entities = Inl FileNotFoundError"
  by (induction ids arbitrary: entities) (auto split: option.splits)

lemma get_local_entities_explicit:
  "get_local_entities c ids =
     (if list_all (\<lambda>i. c i \<noteq> None) ids then Inr (map (\<lambda>i. the (c i)) ids)
      else Inl FileNotFoundError)"
proof (cases "list_all (\<lambda>i. c i \<noteq> None) ids")
  case True
  then have "\<forall>i\<in>set ids. c i \<noteq> None" by (simp add: list_all_iff)
  from local_loop_present[OF this, of "[]"] True show ?thesis
    by (simp add: get_local_entities_def)
next
  case False
  then obtain i where "i \<in> set ids" "c i = None" by (auto simp: list_all_iff)
  from local_loop_absent[of i ids c "[]"] this False show ?thesis
    by (simp add: get_local_entities_def)
qed

lemma find_append:
  "List.find P (xs @ ys) = (case List.find P xs of None \<Rightarrow> List.find P ys | Some x \<Rightarrow> Some x)"
  by (induction xs) auto

lemma find_found: "List.find P xs = Some x \<Longrightarrow> x \<in> set xs \<and> P x"
  by (induction xs) (auto split: if_splits)

lemma store_is_cache_after: "store_entites_locally c ds = cache_after c ds"
proof (induction ds arbitrary: c)
  case Nil
  then show ?case by (simp add: cache_after_def last_delivered_def)
next
  case (Cons d ds)
  show ?case
  proof
    fix i
    show "store_entites_locally c (d # ds) i = cache_after c (d # ds) i"
      by (cases "List.find (\<lambda>d. doc_id d = i) (rev ds)")
        (simp_all add: Cons.IH cache_after_def last_delivered_def find_append)
  qed
qed

lemma cache_after_only:
  assumes "d \<in> set ds" and "\<forall>d'\<in>set ds. doc_id d' = doc_id d \<longrightarrow> d' = d"
  shows "cache_after c ds (doc_id d) = Some (json_dump d)"
proof -
  have "List.find (\<lambda>x. doc_id x = doc_id d) (rev ds) \<noteq> None"
    using assms(1) by (auto simp: find_None_iff)
  then obtain x where x: "List.find (\<lambda>x. doc_id x = doc_id d) (rev ds) = Some x" by auto
  then have "x \<in> set ds" "doc_id x = doc_id d" using find_found[OF x] by simp_all
  then have "x = d" using assms(2) by blast
  then show ?thesis using x by (simp add: cache_after_def last_delivered_def)
qed

lemma cache_after_untouched:
  "i \<notin> doc_id ` set ds \<Longrightarrow> cache_after c ds i = c i"
proof -
  assume "i \<notin> doc_id ` set ds"
  then have "List.find (\<lambda>d. doc_id d = i) (rev ds) = None"
    by (auto simp: find_None_iff)
  then show ?thesis by (simp add: cache_after_def last_delivered_def)
qed

lemma store_append:
  "store_entites_locally c (xs @ ys) = store_entites_locally (store_entites_locally c xs) ys"
  by (induction xs arbitrary: c) auto

lemma store_present:
  "(store_entites_locally c ds i \<noteq> None) = (c i \<noteq> None \<or> i \<in> doc_id ` set ds)"
  by (induction ds arbitrary: c) auto

lemma delivered_Cons:
  "delivered api (chunk # chunks) =
     (case api chunk of Inl e \<Rightarrow> [] | Inr entities \<Rightarrow> entities) @ delivered api chunks"
  by (simp add: delivered_def)

subsection \<open>\<open>range\<close> and \<open>batches\<close>\<close>

lemma ceil_step:
  fixes start stop step :: nat
  assumes "start < stop" "0 < step"
  shows "(stop - start + (step - 1)) div step
           = Suc ((stop - (start + step) + (step - 1)) div step)"
proof (cases "start + step \<le> stop")
  case True
  define k where "k = stop - (start + step) + (step - 1)"
  have "stop - start + (step - 1) = k + step"
    using True assms unfolding k_def by arith
  moreover have "(k + step) div step = Suc (k div step)"
    using div_add_self2[of step k] assms(2) by simp
  ultimately have "(stop - start + (step - 1)) div step = Suc (k div step)"
    by (simp only:)
  then show ?thesis unfolding k_def .
next
  case False
  then have a: "stop - (start + step) = 0" by simp
  have "step \<le> stop - start + (step - 1)" "stop - start + (step - 1) < step + step"
    using assms False by arith+
  then have b: "(stop - start + (step - 1)) div step = 1"
    by (simp add: div_nat_eqI)
  have c: "(step - 1) div step = 0" using assms(2) by simp
  show ?thesis using b c by (simp add: a)
qed

lemma py_range_length:
  "0 < step \<Longrightarrow> length (py_range start stop step) = (stop - start + (step - 1)) div step"
proof (induction start stop step rule: py_range.induct)
  case (1 start stop step)
  show ?case
  proof (cases "start < stop")
    case True
    have "length (py_range start stop step) = Suc (length (py_range (start + step) stop step))"
      using True 1(2) by (subst py_range.simps) simp
    also have "\<dots> = Suc ((stop - (start + step) + (step - 1)) div step)"
      using 1(1) True 1(2) by simp
    also have "\<dots> = (stop - start + (step - 1)) div step"
      by (rule ceil_step[OF True 1(2), symmetric])
    finally show ?thesis .
  next
    case False
    then show ?thesis using 1 by (simp add: py_range.simps[of start stop step])
  qed
qed

lemma py_range_bound: "0 < step \<Longrightarrow> ii \<in> set (py_range start stop step) \<Longrightarrow> ii < stop"
proof (induction start stop step rule: py_range.induct)
  case (1 start stop step)
  then show ?case
    by (subst (asm) (2) py_range.simps) (auto split: if_splits)
qed

lemma slices_concat:
  "0 < step \<Longrightarrow>
   concat (map (\<lambda>ii. take step (drop ii ids)) (py_range start (length ids) step))
     = drop start ids"
proof (induction start "length ids" step rule: py_range.induct)
  case (1 start step)
  show ?case
  proof (cases "start < length ids")
    case True
    have "take step (drop start ids) @ drop (start + step) ids = drop start ids"
      by (metis append_take_drop_id drop_drop add.commute)
    then show ?thesis using 1 True
      by (subst py_range.simps) simp
  next
    case False
    then show ?thesis by (simp add: py_range.simps[of start "length ids" step])
  qed
qed

lemma batches_concat: "concat (batches ids) = ids"
  using slices_concat[of WIKIBASE_API_MAX_IDS ids 0]
  by (simp add: batches_def WIKIBASE_API_MAX_IDS_def)

lemma batches_length: "length (batches ids) = (length ids + 49) div 50"
  using py_range_length[of WIKIBASE_API_MAX_IDS 0 "length ids"]
  by (simp add: batches_def WIKIBASE_API_MAX_IDS_def)

lemma batches_chunk_size:
  "chunk \<in> set (batches ids) \<Longrightarrow> chunk \<noteq> [] \<and> length chunk \<le> 50"
  by (auto simp: batches_def WIKIBASE_API_MAX_IDS_def dest: py_range_bound[rotated])

lemma batches_disjoint:
  assumes "distinct ids" "i < length (batches ids)" "j < length (batches ids)" "i \<noteq> j"
  shows "set (batches ids ! i) \<inter> set (batches ids ! j) = {}"
proof -
  have d: "distinct (concat (batches ids))" using assms(1) by (simp add: batches_concat)
  have "distinct (removeAll [] (batches ids))" using d by (simp add: distinct_concat_iff)
  moreover have "removeAll [] (batches ids) = batches ids"
    using batches_chunk_size by (metis removeAll_id)
  ultimately have "distinct (batches ids)" by simp
  then have "batches ids ! i \<noteq> batches ids ! j"
    using assms(2,3,4) by (simp add: nth_eq_iff_index_eq)
  then show ?thesis
    using d assms(2,3) by (simp add: distinct_concat_iff)
qed

subsection \<open>The run of the fetches\<close>

lemma fetch_chunks_all:
  "\<forall>chunk\<in>set chunks. \<exists>entities. api chunk = Inr entities \<Longrightarrow>
   fetch_chunks api w chunks =
     (Inr (), w\<lparr>cache := store_entites_locally (cache w) (delivered api chunks),
               requests := requests w @ chunks\<rparr>)"
proof (induction chunks arbitrary: w)
  case Nil
  then show ?case by (simp add: delivered_def)
next
  case (Cons chunk chunks)
  from Cons.prems obtain entities where e: "api chunk = Inr entities" by auto
  have rest: "\<forall>chunk\<in>set chunks. \<exists>entities. api chunk = Inr entities"
    using Cons.prems by simp
  show ?case
    by (simp add: fetch_batch_def e Cons.IH[OF rest] delivered_Cons store_append)
qed

lemma fetch_chunks_prefix:
  "\<exists>n. requests (snd (fetch_chunks api w chunks)) = requests w @ take n chunks"
proof (induction chunks arbitrary: w)
  case Nil
  then show ?case by simp
next
  case (Cons chunk chunks)
  show ?case
  proof (cases "api chunk")
    case (Inl e)
    then have "requests (snd (fetch_chunks api w (chunk # chunks)))
                 = requests w @ take 1 (chunk # chunks)"
      by (simp add: fetch_batch_def)
    then show ?thesis by blast
  next
    case (Inr entities)
    define w1 where "w1 = snd (fetch_batch api w chunk)"
    have r: "requests w1 = requests w @ [chunk]" by (simp add: w1_def fetch_batch_def Inr)
    have f: "fetch_chunks api w (chunk # chunks) = fetch_chunks api w1 chunks"
      by (simp add: w1_def fetch_batch_def Inr)
    from Cons.IH[of w1] obtain n
      where "requests (snd (fetch_chunks api w1 chunks)) = requests w1 @ take n chunks"
      by blast
    then have "requests (snd (fetch_chunks api w (chunk # chunks)))
                 = requests w @ take (Suc n) (chunk # chunks)"
      unfolding f by (simp add: r)
    then show ?thesis by blast
  qed
qed

lemma fetch_chunks_requests:
  "requests (snd (fetch_chunks api w chunks))
     = requests w @ take (Suc (length (takeWhile (answers api) chunks))) chunks"
proof (induction chunks arbitrary: w)
  case Nil
  then show ?case by simp
next
  case (Cons chunk chunks)
  show ?case
  proof (cases "api chunk")
    case (Inl e)
    then show ?thesis by (simp add: fetch_batch_def answers_def)
  next
    case (Inr entities)
    then show ?thesis by (simp add: fetch_batch_def answers_def Cons.IH)
  qed
qed

lemma fetch_chunks_Inr_all:
  "fst (fetch_chunks api w chunks) = Inr u \<Longrightarrow>
   \<forall>chunk\<in>set chunks. \<exists>entities. api chunk = Inr entities"
proof (induction chunks arbitrary: w)
  case Nil
  then show ?case by simp
next
  case (Cons chunk chunks)
  then show ?case
    by (cases "api chunk") (auto simp: fetch_batch_def split: prod.splits sum.splits)
qed

lemma get_entities_answered:
  assumes "\<forall>chunk\<in>set (fetch_plan w ids). \<exists>entities. api chunk = Inr entities"
  shows "get_entities api w ids =
     (get_local_entities (store_entites_locally (cache w) (delivered api (fetch_plan w ids))) ids,
      \<lparr>cache = store_entites_locally (cache w) (delivered api (fetch_plan w ids)),
       requests = requests w @ fetch_plan w ids,
       resolved = resolved w @ [ids]\<rparr>)"
  using fetch_chunks_all[OF assms, of "w\<lparr>resolved := resolved w @ [ids]\<rparr>"]
  by (simp add: get_entities_def fetch_plan_def)

lemma get_entities_Inr_answered:
  assumes "fst (get_entities api w ids) = Inr entities"
  shows "\<forall>chunk\<in>set (fetch_plan w ids). \<exists>entities. api chunk = Inr entities"
proof -
  let ?w = "w\<lparr>resolved := resolved w @ [ids]\<rparr>"
  obtain r w1 where f: "fetch_chunks api ?w (fetch_plan w ids) = (r, w1)"
    by (cases "fetch_chunks api ?w (fetch_plan w ids)") auto
  have "r = Inr ()"
    using assms f by (cases r) (auto simp: get_entities_def fetch_plan_def)
  then have "fst (fetch_chunks api ?w (fetch_plan w ids)) = Inr ()" using f by simp
  then show ?thesis by (rule fetch_chunks_Inr_all)
qed

lemma delivered_covers:
  assumes "\<forall>chunk\<in>set chunks.
             \<exists>entities. api chunk = Inr entities \<and> set chunk \<subseteq> doc_id ` set entities"
  shows "set (concat chunks) \<subseteq> doc_id ` set (delivered api chunks)"
  using assms by (induction chunks) (auto simp: delivered_Cons)

lemma all_present_after_fetch:
  assumes "\<forall>chunk\<in>set (fetch_plan w ids).
             \<exists>entities. api chunk = Inr entities \<and> set chunk \<subseteq> doc_id ` set entities"
  shows "\<forall>i\<in>set ids.
           store_entites_locally (cache w) (delivered api (fetch_plan w ids)) i \<noteq> None"
proof
  fix i assume i: "i \<in> set ids"
  show "store_entites_locally (cache w) (delivered api (fetch_plan w ids)) i \<noteq> None"
  proof (cases "cache w i")
    case None
    then have "i \<in> set (get_non_local_ids (cache w) ids)"
      using i by (simp add: get_non_local_ids_filter)
    then have "i \<in> set (concat (fetch_plan w ids))"
      by (simp only: fetch_plan_def batches_concat)
    then have "i \<in> doc_id ` set (delivered api (fetch_plan w ids))"
      using delivered_covers[OF assms] by blast
    then show ?thesis by (simp only: store_present) simp
  next
    case (Some d)
    then show ?thesis by (simp only: store_present) simp
  qed
qed

subsection \<open>Evaluation of the examples\<close>

lemma plan_three:
  "fetch_plan empty_world [''Q1'', ''Q2'', ''Q1''] = [[''Q1'', ''Q2'', ''Q1'']]"
  by (simp add: fetch_plan_def batches_def get_non_local_ids_def empty_world_def
      py_range.simps WIKIBASE_API_MAX_IDS_def)

lemma batches_fifty_one:
  "batches (replicate 51 ''Q1'') = [replicate 50 ''Q1'', [''Q1'']]"
  by (simp add: batches_def WIKIBASE_API_MAX_IDS_def py_range.simps)

section \<open>Properties of the resolver\<close>

lemma get_entities_world:
  assumes "\<forall>chunk\<in>set (fetch_plan w ids). \<exists>entities. api chunk = Inr entities"
  shows "get_entities api w ids =
     (get_local_entities (cache_after (cache w) (delivered api (fetch_plan w ids))) ids,
      \<lparr>cache = cache_after (cache w) (delivered api (fetch_plan w ids)),
       requests = requests w @ fetch_plan w ids,
       resolved = resolved w @ [ids]\<rparr>)"
  using get_entities_answered[OF assms] by (simp only: store_is_cache_after)

lemma many_ids_distinct: "distinct many_ids"
proof -
  have "inj_on (\<lambda>n. CHR ''Q'' # replicate n CHR ''1'') (set [0..<51])"
  proof (rule inj_onI)
    fix x y :: nat
    assume "CHR ''Q'' # replicate x CHR ''1'' = CHR ''Q'' # replicate y CHR ''1''"
    then have "length (replicate x CHR ''1'') = length (replicate y CHR ''1'')" by simp
    then show "x = y" by simp
  qed
  then show ?thesis by (simp add: many_ids_def distinct_map)
qed

lemma many_ids_length: "length many_ids = 51"
  by (simp add: many_ids_def)

lemma many_ids_chunks: "map length (batches many_ids) = [50, 1]"
  by (simp add: batches_def WIKIBASE_API_MAX_IDS_def py_range.simps many_ids_length)

lemma echo_api_answers: "\<forall>chunk\<in>set chunks. \<exists>entities. echo_api chunk = Inr entities"
  by (simp add: echo_api_def)

lemma json_dump_unsorted: "json_dump unsorted_doc = sorted_doc"
  by (simp add: json_dump_def sort_keys_def dump_statement_def unsorted_doc_def sorted_doc_def
      unqualified_def)

lemma plan_half_two: "fetch_plan half_world [''Q1'', ''Q2''] = [[''Q1'']]"
  by (simp add: fetch_plan_def batches_def get_non_local_ids_def half_world_def
      py_range.simps WIKIBASE_API_MAX_IDS_def)

lemma plan_half_three: "fetch_plan half_world [''Q1'', ''Q2'', ''Q1''] = [[''Q1'', ''Q1'']]"
  by (simp add: fetch_plan_def batches_def get_non_local_ids_def half_world_def
      py_range.simps WIKIBASE_API_MAX_IDS_def)

lemma unsorted_api_one: "unsorted_api [''Q1''] = Inr [unsorted_doc]"
  by (simp add: unsorted_api_def List.map_filter_simps)

lemma unsorted_api_twice: "unsorted_api [''Q1'', ''Q1''] = Inr [unsorted_doc]"
  by (simp add: unsorted_api_def List.map_filter_simps)

lemma unsorted_doc_id: "doc_id unsorted_doc = ''Q1''"
  by (simp add: unsorted_doc_def)

text \<open>
  Claim C1. Whenever the remote answers the requests for the chunks of missing identifiers,
  \<open>get_entities\<close> has issued one request for every such chunk and written every delivered
  document to the cache, and only then reads the requested identifiers back. Its request
  log has all the chunks. The cache in which it reads is the given cache with the
  deliveries: under the identifier of a delivered document sits that document as
  \<open>json.load\<close> reads it back (of several delivered with one identifier, the last), and
  every other identifier holds what it held before. The resolver returns a list only if
  every chunk's request was answered. If each answer holds a document for every identifier
  asked for, every requested identifier is in the cache when it is read back. Reading back
  gives the cached documents of the requested identifiers in order, or
  \<open>FileNotFoundError\<close> when one has none. The run of fetches is eager because the generator
  expression is unpacked with \<open>*\<close> into the argument list of \<open>itertools.chain\<close>.
\<close>

theorem get_entities_fetches_before_reading:
  "((\<forall>chunk\<in>set (fetch_plan w ids). \<exists>entities. api chunk = Inr entities) \<longrightarrow>
      get_entities api w ids =
        (get_local_entities
           (cache_after (cache w) (delivered api (fetch_plan w ids))) ids,
         \<lparr>cache = cache_after (cache w) (delivered api (fetch_plan w ids)),
          requests = requests w @ fetch_plan w ids,
          resolved = resolved w @ [ids]\<rparr>)
      \<and> (\<forall>d\<in>set (delivered api (fetch_plan w ids)).
            (\<forall>d'\<in>set (delivered api (fetch_plan w ids)). doc_id d' = doc_id d \<longrightarrow> d' = d) \<longrightarrow>
            cache (snd (get_entities api w ids)) (doc_id d) = Some (json_dump d))
      \<and> (\<forall>i. i \<notin> doc_id ` set (delivered api (fetch_plan w ids)) \<longrightarrow>
            cache (snd (get_entities api w ids)) i = cache w i))
   \<and> ((\<exists>entities. fst (get_entities api w ids) = Inr entities) \<longrightarrow>
      (\<forall>chunk\<in>set (fetch_plan w ids). \<exists>entities. api chunk = Inr entities))
   \<and> ((\<forall>chunk\<in>set (fetch_plan w ids).
         \<exists>entities. api chunk = Inr entities \<and> set chunk \<subseteq> doc_id ` set entities) \<longrightarrow>
      (\<forall>i\<in>set ids. cache_after (cache w) (delivered api (fetch_plan w ids)) i \<noteq> None))
   \<and> get_local_entities c ids =
        (if list_all (\<lambda>i. c i \<noteq> None) ids then Inr (map (\<lambda>i. the (c i)) ids)
         else Inl FileNotFoundError)"
proof -
  let ?ds = "delivered api (fetch_plan w ids)"
  have a: "(\<forall>chunk\<in>set (fetch_plan w ids). \<exists>entities. api chunk = Inr entities) \<Longrightarrow>
      get_entities api w ids =
        (get_local_entities (cache_after (cache w) ?ds) ids,
         \<lparr>cache = cache_after (cache w) ?ds,
          requests = requests w @ fetch_plan w ids,
          resolved = resolved w @ [ids]\<rparr>)"
    by (rule get_entities_world)
  have b: "(\<forall>chunk\<in>set (fetch_plan w ids). \<exists>entities. api chunk = Inr entities) \<Longrightarrow>
      cache (snd (get_entities api w ids)) = cache_after (cache w) ?ds"
    using a by simp
  have c: "(\<forall>chunk\<in>set (fetch_plan w ids).
         \<exists>entities. api chunk = Inr entities \<and> set chunk \<subseteq> doc_id ` set entities) \<Longrightarrow>
      (\<forall>i\<in>set ids. cache_after (cache w) ?ds i \<noteq> None)"
    using all_present_after_fetch[of w ids api] by (simp only: store_is_cache_after)
  show ?thesis
    using a b c get_entities_Inr_answered[of api w ids]
      cache_after_only[of _ ?ds "cache w"] cache_after_untouched[of _ ?ds "cache w"]
      get_local_entities_explicit[of c ids]
    by (intro conjI impI ballI allI) (simp_all, blast+)
qed

theorem get_entities_fetches_before_reading_witness:
  "list_all (\<lambda>chunk. \<exists>entities. unsorted_api chunk = Inr entities
                          \<and> set chunk \<subseteq> doc_id ` set entities)
      (fetch_plan half_world [''Q1'', ''Q2''])
   \<and> get_entities unsorted_api half_world [''Q1'', ''Q2'']
       = (Inr [sorted_doc, doc_B],
          \<lparr>cache = (\<lambda>i. None)(''Q2'' \<mapsto> doc_B, ''Q1'' \<mapsto> sorted_doc),
           requests = [[''Q1'']], resolved = [[''Q1'', ''Q2'']]\<rparr>)
   \<and> cache (snd (get_entities unsorted_api half_world [''Q1'', ''Q2''])) ''Q1''
       = Some sorted_doc
   \<and> sorted_doc \<noteq> unsorted_doc"
proof -
  have h: "\<forall>chunk\<in>set (fetch_plan half_world [''Q1'', ''Q2'']).
      \<exists>entities. unsorted_api chunk = Inr entities \<and> set chunk \<subseteq> doc_id ` set entities"
    by (simp add: plan_half_two unsorted_api_one unsorted_doc_id)
  then have a: "\<forall>chunk\<in>set (fetch_plan half_world [''Q1'', ''Q2'']).
      \<exists>entities. unsorted_api chunk = Inr entities"
    by blast
  have ds: "delivered unsorted_api (fetch_plan half_world [''Q1'', ''Q2'']) = [unsorted_doc]"
    by (simp add: plan_half_two delivered_def unsorted_api_one)
  have ds': "delivered unsorted_api [[''Q1'']] = [unsorted_doc]"
    by (simp add: delivered_def unsorted_api_one)
  note t = get_entities_fetches_before_reading[of half_world "[''Q1'', ''Q2'']" unsorted_api]
  from t a have "\<forall>d\<in>set (delivered unsorted_api (fetch_plan half_world [''Q1'', ''Q2''])).
            (\<forall>d'\<in>set (delivered unsorted_api (fetch_plan half_world [''Q1'', ''Q2''])).
               doc_id d' = doc_id d \<longrightarrow> d' = d) \<longrightarrow>
            cache (snd (get_entities unsorted_api half_world [''Q1'', ''Q2''])) (doc_id d)
              = Some (json_dump d)"
    by blast
  then have one: "cache (snd (get_entities unsorted_api half_world [''Q1'', ''Q2'']))
          (doc_id unsorted_doc) = Some (json_dump unsorted_doc)"
    unfolding ds by simp
  have ca: "cache_after (cache half_world) [unsorted_doc]
              = (\<lambda>i. None)(''Q2'' \<mapsto> doc_B, ''Q1'' \<mapsto> sorted_doc)"
    by (rule ext)
      (simp add: cache_after_def last_delivered_def unsorted_doc_id json_dump_unsorted
        half_world_def)
  from t a have "get_entities unsorted_api half_world [''Q1'', ''Q2''] =
        (get_local_entities
           (cache_after (cache half_world) [unsorted_doc]) [''Q1'', ''Q2''],
         \<lparr>cache = cache_after (cache half_world) [unsorted_doc],
          requests = requests half_world @ [[''Q1'']],
          resolved = resolved half_world @ [[''Q1'', ''Q2'']]\<rparr>)"
    unfolding plan_half_two ds' by blast
  then have two: "get_entities unsorted_api half_world [''Q1'', ''Q2'']
       = (Inr [sorted_doc, doc_B],
          \<lparr>cache = (\<lambda>i. None)(''Q2'' \<mapsto> doc_B, ''Q1'' \<mapsto> sorted_doc),
           requests = [[''Q1'']], resolved = [[''Q1'', ''Q2'']]\<rparr>)"
    unfolding ca by (simp add: get_local_entities_def half_world_def)
  have ne: "sorted_doc \<noteq> unsorted_doc"
    by (simp add: sorted_doc_def unsorted_doc_def)
  show ?thesis
    using h one two ne by (simp add: list_all_iff unsorted_doc_id json_dump_unsorted)
qed

text \<open>
  Claim C2, as the code has it. \<open>get_non_local_ids\<close> keeps the identifiers that have no file, in
  input order and with every repetition: an identifier that is absent from the cache occurs
  in the result as often as in the input. Nothing removes duplicates. When every request of
  the call is answered, the requests issued are the chunks of this list, one after the
  other, so that over all requests of the call such an identifier is asked for as often as
  it occurs in the input.
\<close>

theorem get_non_local_ids_keeps_repeats:
  "get_non_local_ids c ids = filter (\<lambda>i. c i = None) ids
   \<and> count_list (get_non_local_ids c ids) i = (if c i = None then count_list ids i else 0)
   \<and> ((\<forall>chunk\<in>set (fetch_plan w ids). \<exists>entities. api chunk = Inr entities) \<longrightarrow>
        requests (snd (get_entities api w ids)) = requests w @ fetch_plan w ids
        \<and> concat (fetch_plan w ids) = get_non_local_ids (cache w) ids
        \<and> count_list (concat (fetch_plan w ids)) i
            = (if cache w i = None then count_list ids i else 0))"
proof -
  have f: "\<And>c. count_list (filter (\<lambda>i. c i = None) ids) i
             = (if c i = None then count_list ids i else 0)"
    by (induction ids) auto
  have p: "concat (fetch_plan w ids) = get_non_local_ids (cache w) ids"
    by (simp add: fetch_plan_def batches_concat)
  have r: "(\<forall>chunk\<in>set (fetch_plan w ids). \<exists>entities. api chunk = Inr entities) \<Longrightarrow>
           requests (snd (get_entities api w ids)) = requests w @ fetch_plan w ids"
    using get_entities_world[of w ids api] by simp
  show ?thesis
    using r by (simp add: p get_non_local_ids_filter f)
qed

theorem get_non_local_ids_keeps_repeats_witness:
  "list_all (\<lambda>chunk. \<exists>entities. echo_api chunk = Inr entities)
      (fetch_plan empty_world [''Q1'', ''Q2'', ''Q1''])
   \<and> requests (snd (get_entities echo_api empty_world [''Q1'', ''Q2'', ''Q1'']))
       = [[''Q1'', ''Q2'', ''Q1'']]
   \<and> count_list (concat (fetch_plan empty_world [''Q1'', ''Q2'', ''Q1''])) ''Q1'' = 2"
proof -
  have h: "\<forall>chunk\<in>set (fetch_plan empty_world [''Q1'', ''Q2'', ''Q1'']).
             \<exists>entities. echo_api chunk = Inr entities"
    by (rule echo_api_answers)
  have e: "cache empty_world ''Q1'' = None" "requests empty_world = []"
    by (simp_all add: empty_world_def)
  show ?thesis
    using h e
      get_non_local_ids_keeps_repeats[of "cache empty_world" "[''Q1'', ''Q2'', ''Q1'']" "''Q1''"
        empty_world echo_api]
    by (simp add: plan_three list_all_iff)
qed

text \<open>
  The claim as stated fails: with an empty cache the input \<open>["Q1", "Q1"]\<close> gives the missing
  list \<open>["Q1", "Q1"]\<close>, and the one request that is issued asks for \<open>Q1\<close> twice.
\<close>

theorem get_non_local_ids_dedup_counterexample:
  "get_non_local_ids (cache empty_world) [''Q1'', ''Q1''] = [''Q1'', ''Q1'']
   \<and> \<not> distinct (get_non_local_ids (cache empty_world) [''Q1'', ''Q1''])
   \<and> requests (snd (get_entities echo_api empty_world [''Q1'', ''Q1''])) = [[''Q1'', ''Q1'']]"
  by (simp add: get_non_local_ids_def empty_world_def get_entities_def batches_def
      py_range.simps WIKIBASE_API_MAX_IDS_def fetch_batch_def echo_api_def Let_def)

text \<open>
  Claim C3. When the remote answers every request of the call with a document for each
  identifier asked for, \<open>get_entities\<close> returns a list with one document per input
  identifier, in input order. The document at position \<open>k\<close> is fixed by the identifier
  \<open>ids ! k\<close>, the cache as it was given and the documents the remote delivers, whatever
  their order within an answer: it is the last document delivered with that identifier, as
  \<open>json.load\<close> reads it back, and the document the given cache holds when none is
  delivered with it. It is also what the cache holds under \<open>ids ! k\<close> after the call. So
  equal input identifiers give equal outputs.
\<close>

theorem get_entities_order:
  assumes "\<forall>chunk\<in>set (fetch_plan w ids).
             \<exists>entities. api chunk = Inr entities \<and> set chunk \<subseteq> doc_id ` set entities"
  shows "\<exists>entities w'. get_entities api w ids = (Inr entities, w')
           \<and> length entities = length ids
           \<and> (\<forall>k<length ids. cache w' (ids ! k) = Some (entities ! k))
           \<and> (\<forall>k<length ids.
                 Some (entities ! k)
                   = cache_after (cache w) (delivered api (fetch_plan w ids)) (ids ! k))
           \<and> (\<forall>k<length ids. \<forall>d.
                 last_delivered (delivered api (fetch_plan w ids)) (ids ! k) = Some d \<longrightarrow>
                 entities ! k = json_dump d)
           \<and> (\<forall>k<length ids.
                 last_delivered (delivered api (fetch_plan w ids)) (ids ! k) = None \<longrightarrow>
                 cache w (ids ! k) = Some (entities ! k))"
proof -
  let ?ds = "delivered api (fetch_plan w ids)"
  let ?c = "cache_after (cache w) ?ds"
  let ?w = "\<lparr>cache = ?c, requests = requests w @ fetch_plan w ids,
            resolved = resolved w @ [ids]\<rparr>"
  let ?es = "map (\<lambda>i. the (?c i)) ids"
  have a: "\<forall>chunk\<in>set (fetch_plan w ids). \<exists>entities. api chunk = Inr entities"
    using assms by blast
  have p: "\<forall>i\<in>set ids. ?c i \<noteq> None"
    using all_present_after_fetch[OF assms] by (simp only: store_is_cache_after)
  then have "list_all (\<lambda>i. ?c i \<noteq> None) ids" by (simp add: list_all_iff)
  then have "get_local_entities ?c ids = Inr ?es"
    by (simp add: get_local_entities_explicit)
  then have g: "get_entities api w ids = (Inr ?es, ?w)"
    using get_entities_world[OF a] by simp
  have k: "\<forall>k<length ids. Some (?es ! k) = ?c (ids ! k)"
    using p by auto
  have k1: "\<forall>k<length ids. cache ?w (ids ! k) = Some (?es ! k)"
    using k by simp
  have k2: "\<forall>k<length ids. \<forall>d. last_delivered ?ds (ids ! k) = Some d \<longrightarrow> ?es ! k = json_dump d"
    by (simp add: cache_after_def)
  have k3: "\<forall>k<length ids. last_delivered ?ds (ids ! k) = None \<longrightarrow>
              cache w (ids ! k) = Some (?es ! k)"
  proof (intro allI impI)
    fix k
    assume "k < length ids" and n: "last_delivered ?ds (ids ! k) = None"
    then have "?c (ids ! k) \<noteq> None" using p by simp
    then show "cache w (ids ! k) = Some (?es ! k)"
      using n \<open>k < length ids\<close> by (auto simp: cache_after_def)
  qed
  show ?thesis
    using g k k1 k2 k3 by (intro exI[of _ ?es] exI[of _ ?w]) simp
qed

theorem get_entities_order_witness:
  "list_all (\<lambda>chunk. \<exists>entities. unsorted_api chunk = Inr entities
                          \<and> set chunk \<subseteq> doc_id ` set entities)
      (fetch_plan half_world [''Q1'', ''Q2'', ''Q1''])
   \<and> fst (get_entities unsorted_api half_world [''Q1'', ''Q2'', ''Q1''])
       = Inr [sorted_doc, doc_B, sorted_doc]
   \<and> sorted_doc = json_dump unsorted_doc
   \<and> cache half_world ''Q2'' = Some doc_B"
proof -
  let ?ids = "[''Q1'', ''Q2'', ''Q1'']"
  have h: "\<forall>chunk\<in>set (fetch_plan half_world ?ids).
      \<exists>entities. unsorted_api chunk = Inr entities \<and> set chunk \<subseteq> doc_id ` set entities"
    by (simp add: plan_half_three unsorted_api_twice unsorted_doc_id)
  have ds: "delivered unsorted_api (fetch_plan half_world ?ids) = [unsorted_doc]"
    by (simp add: plan_half_three delivered_def unsorted_api_twice)
  have l1: "last_delivered [unsorted_doc] ''Q1'' = Some unsorted_doc"
    and l2: "last_delivered [unsorted_doc] ''Q2'' = None"
    by (simp_all add: last_delivered_def unsorted_doc_id)
  have c2: "cache half_world ''Q2'' = Some doc_B" by (simp add: half_world_def)
  from get_entities_order[OF h] obtain entities w'
    where g: "get_entities unsorted_api half_world ?ids = (Inr entities, w')"
      and n: "length entities = length ?ids"
      and d: "\<forall>k<length ?ids. \<forall>d.
                 last_delivered [unsorted_doc] (?ids ! k) = Some d \<longrightarrow>
                 entities ! k = json_dump d"
      and c: "\<forall>k<length ?ids.
                 last_delivered [unsorted_doc] (?ids ! k) = None \<longrightarrow>
                 cache half_world (?ids ! k) = Some (entities ! k)"
    unfolding ds by blast
  have e0: "entities ! 0 = json_dump unsorted_doc" using d l1 by auto
  have e2: "entities ! 2 = json_dump unsorted_doc"
    using d[rule_format, of 2 unsorted_doc] l1 by simp
  have e1: "entities ! 1 = doc_B"
    using c[rule_format, of 1] l2 c2 by simp
  have "length entities = 3" using n by simp
  then obtain x y z where xyz: "entities = [x, y, z]"
    by (auto simp: numeral_3_eq_3 length_Suc_conv)
  have "entities = [sorted_doc, doc_B, sorted_doc]"
    using e0 e1 e2 by (simp add: xyz json_dump_unsorted)
  then show ?thesis using g h c2 by (simp add: list_all_iff json_dump_unsorted)
qed

text \<open>
  Claim C4, as the code has it. For \<open>N\<close> identifiers \<open>batches\<close> gives \<open>(N + 49) div 50\<close>
  chunks, that is the ceiling of \<open>N / 50\<close>; every chunk is non-empty and has at most 50
  identifiers; the chunks concatenated are the input. When no identifier is repeated in the
  input, two different chunks share no identifier. One request is issued per chunk, in
  order and with the chunk's identifiers, for the chunks whose requests are answered and
  for the first chunk whose request raises, and none after it: the requests of the run are
  the chunks up to and including that one, and all the chunks when no request raises.
\<close>

theorem batches_partition:
  "length (batches ids) = (length ids + 49) div 50
   \<and> (\<forall>chunk\<in>set (batches ids). chunk \<noteq> [] \<and> length chunk \<le> 50)
   \<and> concat (batches ids) = ids
   \<and> (distinct ids \<longrightarrow>
        (\<forall>i<length (batches ids). \<forall>j<length (batches ids).
           i \<noteq> j \<longrightarrow> set (batches ids ! i) \<inter> set (batches ids ! j) = {}))
   \<and> (\<exists>n. requests (snd (fetch_chunks api w (batches ids)))
             = requests w @ take n (batches ids))
   \<and> (fst (fetch_chunks api w (batches ids)) = Inr () \<longrightarrow>
        requests (snd (fetch_chunks api w (batches ids))) = requests w @ batches ids)
   \<and> requests (snd (fetch_chunks api w (batches ids)))
       = requests w
         @ take (Suc (length (takeWhile (answers api) (batches ids)))) (batches ids)"
proof -
  have "fst (fetch_chunks api w (batches ids)) = Inr () \<Longrightarrow>
        requests (snd (fetch_chunks api w (batches ids))) = requests w @ batches ids"
    using fetch_chunks_all[OF fetch_chunks_Inr_all, of api w "batches ids" "()"] by simp
  then show ?thesis
    using batches_length[of ids] batches_chunk_size[of _ ids] batches_concat[of ids]
      batches_disjoint[of ids] fetch_chunks_prefix[of api w "batches ids"]
      fetch_chunks_requests[of api w "batches ids"]
    by blast
qed

theorem batches_partition_witness:
  "distinct many_ids
   \<and> length many_ids = 51
   \<and> fst (fetch_chunks echo_api empty_world (batches many_ids)) = Inr ()
   \<and> length (batches many_ids) = 2
   \<and> map length (batches many_ids) = [50, 1]
   \<and> concat (batches many_ids) = many_ids
   \<and> set (batches many_ids ! 0) \<inter> set (batches many_ids ! 1) = {}
   \<and> requests (snd (fetch_chunks echo_api empty_world (batches many_ids))) = batches many_ids"
proof -
  have "\<forall>chunk\<in>set (batches many_ids). \<exists>entities. echo_api chunk = Inr entities"
    by (rule echo_api_answers)
  from fetch_chunks_all[OF this, of empty_world]
  have f: "fst (fetch_chunks echo_api empty_world (batches many_ids)) = Inr ()"
    by simp
  have r: "requests empty_world = []" by (simp add: empty_world_def)
  note t = batches_partition[of many_ids echo_api empty_world]
  have n: "length (batches many_ids) = 2" using t by (simp add: many_ids_length)
  have "\<forall>i<length (batches many_ids). \<forall>j<length (batches many_ids).
           i \<noteq> j \<longrightarrow> set (batches many_ids ! i) \<inter> set (batches many_ids ! j) = {}"
    using t many_ids_distinct by blast
  then have d: "set (batches many_ids ! 0) \<inter> set (batches many_ids ! 1) = {}"
    using n by simp
  have q: "requests (snd (fetch_chunks echo_api empty_world (batches many_ids)))
             = batches many_ids"
    using t f r by simp
  have c: "concat (batches many_ids) = many_ids" using t by blast
  show ?thesis
    using many_ids_distinct many_ids_length many_ids_chunks f n d q c by simp
qed

text \<open>
  The claim as stated fails in two ways. For an input with a repeated identifier: 51
  copies of \<open>Q1\<close> make two chunks, and \<open>Q1\<close> is in both. And with a remote that is down
  the first request raises, so for these two chunks a single request is issued.
\<close>

theorem batches_repeated_counterexample:
  "length (batches (replicate 51 ''Q1'')) = 2
   \<and> ''Q1'' \<in> set (batches (replicate 51 ''Q1'') ! 0)
   \<and> ''Q1'' \<in> set (batches (replicate 51 ''Q1'') ! 1)
   \<and> requests (snd (fetch_chunks down_api empty_world (batches (replicate 51 ''Q1''))))
       = [replicate 50 ''Q1'']"
  by (simp add: batches_fifty_one fetch_batch_def down_api_def empty_world_def)

section \<open>The loops of \<open>load_dependencies\<close>\<close>

lemma snak_value_id_readable:
  "data_type s = WIKIBASE_ITEM_DATA_TYPE \<Longrightarrow> reference_readable s \<Longrightarrow>
   \<exists>i. snak_value_id s = Inr i \<and> referenced s = [i]"
  by (auto simp: reference_readable_def snak_value_id_def snak_value_def referenced_def
      split: option.splits pyval.splits)

lemma snak_value_id_unreadable:
  "data_type s = WIKIBASE_ITEM_DATA_TYPE \<Longrightarrow> \<not> reference_readable s \<Longrightarrow>
   \<exists>e. snak_value_id s = Inl e"
  by (auto simp: reference_readable_def snak_value_id_def snak_value_def
      split: option.splits pyval.splits)

lemma qualifier_loop_readable:
  "list_all reference_readable (filter (\<lambda>q. snaktype q = ''value'') qs) \<Longrightarrow>
   qualifier_loop qs dependencies
     = Inr (dependencies @ concat (map snak_ids (filter (\<lambda>q. snaktype q = ''value'') qs)))"
proof (induction qs arbitrary: dependencies)
  case Nil
  then show ?case by simp
next
  case (Cons q qs)
  show ?case
  proof (cases "snaktype q = ''value''")
    case False
    then show ?thesis using Cons by simp
  next
    case True
    note v = this
    show ?thesis
    proof (cases "data_type q = WIKIBASE_ITEM_DATA_TYPE")
      case True
      then obtain i where "snak_value_id q = Inr i" "referenced q = [i]"
        using snak_value_id_readable Cons.prems v by auto
      then show ?thesis using Cons True v by (simp add: snak_ids_def)
    next
      case False
      then show ?thesis using Cons v by (simp add: snak_ids_def)
    qed
  qed
qed

lemma qualifier_loop_unreadable:
  "\<not> list_all reference_readable (filter (\<lambda>q. snaktype q = ''value'') qs) \<Longrightarrow>
   \<exists>e. qualifier_loop qs dependencies = Inl e"
proof (induction qs arbitrary: dependencies)
  case Nil
  then show ?case by simp
next
  case (Cons q qs)
  show ?case
  proof (cases "snaktype q = ''value''")
    case False
    then show ?thesis using Cons by simp
  next
    case True
    note v = this
    show ?thesis
    proof (cases "data_type q = WIKIBASE_ITEM_DATA_TYPE")
      case True
      note it = this
      show ?thesis
      proof (cases "reference_readable q")
        case True
        then obtain i where "snak_value_id q = Inr i"
          using snak_value_id_readable it by blast
        then show ?thesis using Cons True v it by simp
      next
        case False
        then obtain e where "snak_value_id q = Inl e"
          using snak_value_id_unreadable it by blast
        then show ?thesis using v it by simp
      qed
    next
      case False
      then have "reference_readable q" by (simp add: reference_readable_def)
      then show ?thesis using Cons v False by simp
    qed
  qed
qed

lemma claim_loop_readable:
  "list_all statement_readable cs \<Longrightarrow>
   claim_loop cs dependencies = Inr (dependencies @ concat (map statement_ids cs))"
proof (induction cs arbitrary: dependencies)
  case Nil
  then show ?case by simp
next
  case (Cons claim rest)
  show ?case
  proof (cases "data_type (mainsnak claim) \<in> set INTERESTING_DATA_TYPES")
    case False
    then show ?thesis using Cons by (simp add: statement_ids_def)
  next
    case True
    then have m: "reference_readable (mainsnak claim)"
      and q: "list_all reference_readable (value_qualifiers claim)"
      using Cons.prems by (simp_all add: statement_readable_def)
    have ql: "\<And>deps. qualifier_loop (concat (map snd (qualifiers claim))) deps
                = Inr (deps @ concat (map snak_ids (value_qualifiers claim)))"
      using qualifier_loop_readable q unfolding value_qualifiers_def by blast
    show ?thesis
    proof (cases "data_type (mainsnak claim) = WIKIBASE_ITEM_DATA_TYPE")
      case it: True
      then obtain i where "snak_value_id (mainsnak claim) = Inr i" "referenced (mainsnak claim) = [i]"
        using snak_value_id_readable m by blast
      then show ?thesis using Cons True it ql
        by (simp add: statement_ids_def snak_ids_def)
    next
      case False
      then show ?thesis using Cons True ql
        by (simp add: statement_ids_def snak_ids_def)
    qed
  qed
qed

lemma claim_loop_Inr_readable:
  "claim_loop cs dependencies = Inr deps \<Longrightarrow> list_all statement_readable cs"
proof (induction cs arbitrary: dependencies)
  case Nil
  then show ?case by simp
next
  case (Cons claim rest)
  show ?case
  proof (cases "data_type (mainsnak claim) \<in> set INTERESTING_DATA_TYPES")
    case False
    then show ?thesis using Cons by (simp add: statement_readable_def)
  next
    case True
    have m: "reference_readable (mainsnak claim)"
    proof (rule ccontr)
      assume n: "\<not> reference_readable (mainsnak claim)"
      then have it: "data_type (mainsnak claim) = WIKIBASE_ITEM_DATA_TYPE"
        by (simp add: reference_readable_def split: if_splits)
      then obtain e where "snak_value_id (mainsnak claim) = Inl e"
        using snak_value_id_unreadable n by blast
      then show False using Cons.prems True it by simp
    qed
    have q: "list_all reference_readable (value_qualifiers claim)"
    proof (rule ccontr)
      assume "\<not> list_all reference_readable (value_qualifiers claim)"
      then have "\<And>deps. \<exists>e. qualifier_loop (concat (map snd (qualifiers claim))) deps = Inl e"
        using qualifier_loop_unreadable unfolding value_qualifiers_def by blast
      then show False using Cons.prems True
        by (auto split: if_splits sum.splits) (metis Inl_Inr_False)+
    qed
    have "\<exists>deps1. claim_loop rest deps1 = Inr deps"
      using Cons.prems True by (auto split: if_splits sum.splits)
    then have "list_all statement_readable rest" using Cons.IH by blast
    moreover have "statement_readable claim"
      using m q True by (simp add: statement_readable_def)
    ultimately show ?thesis by simp
  qed
qed

lemma claim_loop_append:
  "claim_loop (xs @ ys) dependencies =
     (case claim_loop xs dependencies of Inl e \<Rightarrow> Inl e | Inr deps1 \<Rightarrow> claim_loop ys deps1)"
  by (induction xs arbitrary: dependencies) (auto split: sum.splits)

lemma properties_loop_flat:
  "properties_loop kvs dependencies = claim_loop (concat (map snd kvs)) dependencies"
  by (induction kvs arbitrary: dependencies) (auto simp: claim_loop_append split: sum.splits)

lemma dependencies_of_flat: "dependencies_of d = claim_loop (doc_statements d) []"
  by (simp add: dependencies_of_def doc_statements_def properties_loop_flat)


section \<open>Calls and requests of the resolver\<close>

lemma within_trans: "within a w w1 \<Longrightarrow> within b w1 w2 \<Longrightarrow> within (a + b) w w2"
  by (auto simp: within_def)

lemma within_mono: "within a w w' \<Longrightarrow> a \<le> b \<Longrightarrow> within b w w'"
  by (auto simp: within_def)

lemma within_two:
  "within 1 w w1 \<Longrightarrow> within 1 w1 w2 \<Longrightarrow> within 2 w w2"
  by (auto simp: within_def)

lemma fetch_chunks_resolved: "resolved (snd (fetch_chunks api w chunks)) = resolved w"
proof (induction chunks arbitrary: w)
  case Nil
  then show ?case by simp
next
  case (Cons chunk chunks)
  show ?case
  proof (cases "api chunk")
    case (Inl e)
    then show ?thesis by (simp add: fetch_batch_def)
  next
    case (Inr entities)
    then show ?thesis using Cons by (simp add: fetch_batch_def)
  qed
qed

lemma get_entities_resolved: "resolved (snd (get_entities api w ids)) = resolved w @ [ids]"
proof -
  let ?w = "w\<lparr>resolved := resolved w @ [ids]\<rparr>"
  let ?f = "fetch_chunks api ?w (batches (get_non_local_ids (cache w) ids))"
  have "snd (get_entities api w ids) = snd ?f"
    by (cases ?f) (auto simp: get_entities_def split: sum.splits)
  then show ?thesis by (simp add: fetch_chunks_resolved)
qed

lemma get_entities_requests:
  "length (requests (snd (get_entities api w ids))) \<le> length (requests w) + (length ids + 49) div 50"
proof -
  let ?w = "w\<lparr>resolved := resolved w @ [ids]\<rparr>"
  let ?m = "get_non_local_ids (cache w) ids"
  let ?f = "fetch_chunks api ?w (batches ?m)"
  have s: "snd (get_entities api w ids) = snd ?f"
    by (cases ?f) (auto simp: get_entities_def split: sum.splits)
  obtain n where "requests (snd ?f) = requests ?w @ take n (batches ?m)"
    using fetch_chunks_prefix by blast
  then have "length (requests (snd ?f)) \<le> length (requests w) + length (batches ?m)"
    by simp
  moreover have "length ?m \<le> length ids" by (simp add: get_non_local_ids_filter)
  then have "length (batches ?m) \<le> (length ids + 49) div 50"
    by (simp add: batches_length div_le_mono)
  ultimately show ?thesis using s by simp
qed

lemma get_entities_one_within: "within 1 w (snd (get_entities api w [i]))"
  using get_entities_requests[of api w "[i]"]
  by (simp add: within_def get_entities_resolved)

lemma load_entity_world: "snd (load_entity api w i) = snd (get_entities api w [i])"
  by (cases "get_entities api w [i]") (auto simp: load_entity_def split: sum.splits list.splits)

lemma Entity_shallow_world: "snd (Entity api w i False) = snd (get_entities api w [i])"
  using load_entity_world[of api w i]
  by (cases "load_entity api w i") (auto simp: Entity_def split: sum.splits)

lemma Entity_shallow_within: "within 1 w (snd (Entity api w i False))"
  by (simp only: Entity_shallow_world get_entities_one_within)

lemma parse_snak_within: "within 2 w (snd (parse_snak api w s))"
proof -
  have z: "within 2 w w" by (simp add: within_def)
  have c: "\<And>i r w1. Entity api w i False = (r, w1) \<Longrightarrow> within 2 w w1"
  proof -
    fix i r w1 assume "Entity api w i False = (r, w1)"
    then have "within 1 w w1" using Entity_shallow_within[of w api i] by simp
    then show "within 2 w w1" by (rule within_mono) simp
  qed
  have b: "\<And>i j r w1 r2 w2. Entity api w i False = (r, w1) \<Longrightarrow> Entity api w1 j False = (r2, w2)
             \<Longrightarrow> within 2 w w2"
  proof -
    fix i j r w1 r2 w2
    assume "Entity api w i False = (r, w1)" "Entity api w1 j False = (r2, w2)"
    then have "within 1 w w1" "within 1 w1 w2"
      using Entity_shallow_within[of w api i] Entity_shallow_within[of w1 api j] by simp_all
    then show "within 2 w w2" by (rule within_two)
  qed
  show ?thesis
    unfolding parse_snak_def
    using z by (auto split: prod.splits sum.splits if_splits dest: b c)
qed

lemma snaks_loop_within:
  "within (2 * length snaks) w (snd (snaks_loop api w snaks qs))"
proof (induction snaks arbitrary: w qs)
  case Nil
  then show ?case by (simp add: within_def)
next
  case (Cons s snaks)
  obtain r w1 where p: "parse_snak api w s = (r, w1)" by (cases "parse_snak api w s") auto
  then have a: "within 2 w w1" using parse_snak_within[of w api s] by simp
  have rest: "\<And>qs'. within (2 + 2 * length snaks) w (snd (snaks_loop api w1 snaks qs'))"
    using within_trans[OF a Cons.IH] by simp
  have stop: "within (2 + 2 * length snaks) w w1"
    using a by (rule within_mono) simp
  show ?case
    using p rest stop by (simp split: sum.splits option.splits)
qed

lemma order_loop_within:
  "within (2 * length (concat (map (\<lambda>qualifier_id. case map_of (qualifiers claim) qualifier_id of
                                   None \<Rightarrow> [] | Some snaks \<Rightarrow> snaks) order)))
     w (snd (order_loop api w claim order qs))"
proof (induction order arbitrary: w qs)
  case Nil
  then show ?case by (simp add: within_def)
next
  case (Cons qualifier_id order)
  let ?rest = "concat (map (\<lambda>qualifier_id. case map_of (qualifiers claim) qualifier_id of
                                   None \<Rightarrow> [] | Some snaks \<Rightarrow> snaks) order)"
  show ?case
  proof (cases "map_of (qualifiers claim) qualifier_id")
    case None
    then show ?thesis by (simp add: within_def)
  next
    case (Some snaks)
    obtain r w1 where s: "snaks_loop api w snaks qs = (r, w1)"
      by (cases "snaks_loop api w snaks qs") auto
    then have a: "within (2 * length snaks) w w1"
      using snaks_loop_within[of snaks w api qs] by simp
    have rest: "\<And>qs'. within (2 * length snaks + 2 * length ?rest) w
                  (snd (order_loop api w1 claim order qs'))"
      using within_trans[OF a Cons.IH] by simp
    have stop: "within (2 * length snaks + 2 * length ?rest) w w1"
      using a by (rule within_mono) simp
    show ?thesis
      using Some s rest stop by (simp split: sum.splits)
  qed
qed

lemma claims_loop_within:
  "within (2 * sum_list (map (\<lambda>claim. Suc (length (ordered_qualifier_snaks claim))) cs))
     w (snd (claims_loop api w cs))"
proof (induction cs arbitrary: w)
  case Nil
  then show ?case by (simp add: within_def)
next
  case (Cons claim cs)
  let ?n = "sum_list (map (\<lambda>claim. Suc (length (ordered_qualifier_snaks claim))) cs)"
  let ?q = "length (ordered_qualifier_snaks claim)"
  obtain r w1 where p: "parse_snak api w (mainsnak claim) = (r, w1)"
    by (cases "parse_snak api w (mainsnak claim)") auto
  then have a: "within 2 w w1" using parse_snak_within[of w api "mainsnak claim"] by simp
  obtain r2 w2 where o: "order_loop api w1 claim (qualifiers_order claim) [] = (r2, w2)"
    by (cases "order_loop api w1 claim (qualifiers_order claim) []") auto
  then have b: "within (2 * ?q) w1 w2"
    using order_loop_within[of claim "qualifiers_order claim" w1 api "[]"]
    by (simp add: ordered_qualifier_snaks_def)
  have ab: "within (2 + 2 * ?q) w w2" using within_trans[OF a b] .
  have stop1: "within (2 * (Suc ?q + ?n)) w w1" using a by (rule within_mono) simp
  have stop2: "within (2 * (Suc ?q + ?n)) w w2" using ab by (rule within_mono) simp
  have skip: "within (2 * (Suc ?q + ?n)) w (snd (claims_loop api w1 cs))"
    using within_trans[OF a Cons.IH[of w1]] by (rule within_mono) simp
  have go: "within (2 * (Suc ?q + ?n)) w (snd (claims_loop api w2 cs))"
    using within_trans[OF ab Cons.IH[of w2]] by (rule within_mono) simp
  show ?case
    using p o stop1 stop2 skip go
    by (cases "claims_loop api w2 cs") (simp split: sum.splits option.splits)
qed

lemma claims_within: "within (2 * snak_count d) w (snd (claims api w d))"
  using claims_loop_within[of "doc_statements d" w api]
  by (simp add: claims_def snak_count_def doc_statements_def)


section \<open>Normalization\<close>

lemma parse_snak_skips:
  "data_type s \<notin> set INTERESTING_DATA_TYPES \<or> snaktype s \<noteq> ''value'' \<Longrightarrow>
   parse_snak api w s = (Inr None, w)"
  by (auto simp: parse_snak_def)

lemma parse_snak_not_none:
  "data_type s \<in> set INTERESTING_DATA_TYPES \<Longrightarrow> snaktype s = ''value'' \<Longrightarrow>
   fst (parse_snak api w s) \<noteq> Inr None"
  by (auto simp: parse_snak_def split: prod.splits sum.splits)

lemma parse_snak_none_iff:
  "(fst (parse_snak api w s) = Inr None)
     = (data_type s \<notin> set INTERESTING_DATA_TYPES \<or> snaktype s \<noteq> ''value'')"
  using parse_snak_skips[of s api w] parse_snak_not_none[of s api w] by auto






subsection \<open>With everything in the cache\<close>




lemma amount_not_interesting: "''amount'' \<notin> set INTERESTING_DATA_TYPES"
  by (simp add: INTERESTING_DATA_TYPES_def WIKIBASE_ITEM_DATA_TYPE_def)






subsection \<open>Evaluation of the examples\<close>

lemma cycle_eval:
  "claims cycle_api empty_world doc_A
     = (Inr [Tuple2 (Some ''knows'') (PStr ''B'')],
        \<lparr>cache = (\<lambda>i. None)(''P1'' \<mapsto> doc_P, ''Q2'' \<mapsto> doc_B),
         requests = [[''P1''], [''Q2'']], resolved = [[''P1''], [''Q2'']]\<rparr>)"
  by (simp add: claims_def doc_A_def unqualified_def item_snak_def parse_snak_def
      INTERESTING_DATA_TYPES_def WIKIBASE_ITEM_DATA_TYPE_def Entity_def load_entity_def
      get_entities_def get_non_local_ids_def get_local_entities_def batches_def
      py_range.simps WIKIBASE_API_MAX_IDS_def fetch_batch_def cycle_api_def
      List.map_filter_simps empty_world_def snak_value_def label_def label_value_def
      LANGUAGE_def doc_P_def doc_B_def Let_def json_dump_def sort_keys_def dump_statement_def)

lemma quantity_eval:
  "parse_snak echo_api empty_world quantity_snak
     = (Inr (Some (Some ''P1082'', PQuantity ''+1'' ''1'')),
        \<lparr>cache = (\<lambda>i. None)(''P1082'' \<mapsto> plain_doc ''P1082''),
         requests = [[''P1082'']], resolved = [[''P1082'']]\<rparr>)"
  by (simp add: parse_snak_def quantity_snak_def
      INTERESTING_DATA_TYPES_def WIKIBASE_ITEM_DATA_TYPE_def Entity_def load_entity_def
      get_entities_def get_non_local_ids_def get_local_entities_def batches_def
      py_range.simps WIKIBASE_API_MAX_IDS_def fetch_batch_def echo_api_def
      empty_world_def snak_value_def label_def label_value_def
      LANGUAGE_def plain_doc_def Let_def json_dump_def sort_keys_def)



section \<open>Properties of \<open>Entity\<close>\<close>

text \<open>
  Claim C5. For two documents that reference each other, running \<open>claims\<close> on one of them
  returns, and on the way the resolver is called at most twice per snak of that document
  and at most as many requests are issued, whatever the remote and the cache hold: the
  label of a property or of a referenced item is read from a shallow \<open>Entity\<close>, whose
  claims are never looked at, so the references are not followed any further. No
  definition above calls itself through \<open>Entity\<close>; the only recursion is over the lists of
  the document, which are loops in the program.
\<close>

theorem claims_terminates_on_cycle:
  assumes "references a (doc_id b)" and "references b (doc_id a)"
  shows "\<exists>r w'. claims api w a = (r, w') \<and> within (2 * snak_count a) w w'"
  using claims_within[of a w api] by (cases "claims api w a") auto

theorem claims_terminates_on_cycle_witness:
  "references doc_A (doc_id doc_B) \<and> references doc_B (doc_id doc_A)
   \<and> fst (claims cycle_api empty_world doc_A) = Inr [Tuple2 (Some ''knows'') (PStr ''B'')]
   \<and> within 2 empty_world (snd (claims cycle_api empty_world doc_A))"
proof -
  have a: "references doc_A (doc_id doc_B)"
    by (simp add: references_def doc_statements_def doc_A_def doc_B_def unqualified_def
        item_snak_def)
  have b: "references doc_B (doc_id doc_A)"
    by (simp add: references_def doc_statements_def doc_A_def doc_B_def unqualified_def
        item_snak_def)
  have n: "2 * snak_count doc_A = 2"
    by (simp add: snak_count_def doc_statements_def doc_A_def unqualified_def
        ordered_qualifier_snaks_def)
  have e: "fst (claims cycle_api empty_world doc_A) = Inr [Tuple2 (Some ''knows'') (PStr ''B'')]"
    by (simp only: cycle_eval fst_conv)
  from claims_terminates_on_cycle[OF a b, of cycle_api empty_world]
  have "within (2 * snak_count doc_A) empty_world (snd (claims cycle_api empty_world doc_A))"
    by auto
  then have "within 2 empty_world (snd (claims cycle_api empty_world doc_A))"
    by (simp only: n)
  then show ?thesis using a b e by blast
qed

text \<open>
  Claim C6, as the code has it. When every reference that \<open>load_dependencies\<close> reads can be
  read, the list it collects is, statement after statement and only for statements whose
  main snak has an interesting datatype: the main snak's property identifier (and the
  referenced identifier for the item-reference type), then the same for every qualifier snak
  with snaktype \<open>value\<close>. Repetitions stay in the list. Whenever a list is collected it is
  this one, and it is handed to the resolver in one call.
\<close>

theorem load_dependencies_list:
  "(list_all statement_readable (doc_statements d) \<longrightarrow>
      dependencies_of d = Inr (document_ids d))
   \<and> (dependencies_of d = Inr dependencies \<longrightarrow>
      dependencies = document_ids d
      \<and> resolved (snd (load_dependencies api w d)) = resolved w @ [dependencies])"
proof -
  have a: "list_all statement_readable (doc_statements d) \<Longrightarrow>
           dependencies_of d = Inr (document_ids d)"
    using claim_loop_readable[of "doc_statements d" "[]"]
    by (simp add: dependencies_of_flat document_ids_def)
  have b: "dependencies_of d = Inr dependencies \<Longrightarrow> dependencies = document_ids d"
    using claim_loop_Inr_readable[of "doc_statements d" "[]" dependencies] a
    by (simp add: dependencies_of_flat)
  have c: "dependencies_of d = Inr dependencies \<Longrightarrow>
           snd (load_dependencies api w d) = snd (get_entities api w dependencies)"
    by (cases "get_entities api w dependencies")
      (auto simp: load_dependencies_def split: sum.splits)
  show ?thesis using a b c by (simp add: get_entities_resolved)
qed

theorem load_dependencies_list_witness:
  "list_all statement_readable (doc_statements office_doc)
   \<and> dependencies_of office_doc = Inr [''P39'', ''Q11'', ''P580'', ''P31'', ''Q5'']
   \<and> resolved (snd (load_dependencies echo_api empty_world office_doc))
       = [[''P39'', ''Q11'', ''P580'', ''P31'', ''Q5'']]"
proof -
  have r: "list_all statement_readable (doc_statements office_doc)"
    by (simp add: doc_statements_def office_doc_def office_statement_def unqualified_def
        item_snak_def time_snak_def novalue_snak_def external_snak_def statement_readable_def
        reference_readable_def value_qualifiers_def
        INTERESTING_DATA_TYPES_def WIKIBASE_ITEM_DATA_TYPE_def)
  have i: "document_ids office_doc = [''P39'', ''Q11'', ''P580'', ''P31'', ''Q5'']"
    by (simp add: document_ids_def statement_ids_def snak_ids_def referenced_def
        value_qualifiers_def doc_statements_def office_doc_def office_statement_def
        unqualified_def item_snak_def time_snak_def novalue_snak_def external_snak_def
        INTERESTING_DATA_TYPES_def WIKIBASE_ITEM_DATA_TYPE_def)
  have e: "resolved empty_world = []" by (simp add: empty_world_def)
  show ?thesis
    using r load_dependencies_list[of office_doc "document_ids office_doc" echo_api empty_world]
    by (simp add: i e)
qed

text \<open>
  The claim as stated fails: for a document with the property \<open>P31\<close> in two statements the
  collected list, which goes to the resolver as it is, has \<open>P31\<close> twice; and the qualifier
  of a statement whose main snak is an external identifier is not collected at all.
\<close>

theorem load_dependencies_dedup_counterexample:
  "dependencies_of repeat_doc = Inr [''P31'', ''Q5'', ''P31'', ''Q6'']
   \<and> \<not> distinct [''P31'', ''Q5'', ''P31'', ''Q6'']
   \<and> resolved (snd (load_dependencies echo_api empty_world repeat_doc))
       = [[''P31'', ''Q5'', ''P31'', ''Q6'']]
   \<and> dependencies_of skipped_doc = Inr []"
proof -
  have a: "dependencies_of repeat_doc = Inr [''P31'', ''Q5'', ''P31'', ''Q6'']"
    by (simp add: dependencies_of_def repeat_doc_def unqualified_def item_snak_def
        INTERESTING_DATA_TYPES_def WIKIBASE_ITEM_DATA_TYPE_def snak_value_id_def snak_value_def)
  have b: "dependencies_of skipped_doc = Inr []"
    by (simp add: dependencies_of_def skipped_doc_def external_snak_def
        INTERESTING_DATA_TYPES_def WIKIBASE_ITEM_DATA_TYPE_def)
  have "snd (load_dependencies echo_api empty_world repeat_doc)
          = snd (get_entities echo_api empty_world [''P31'', ''Q5'', ''P31'', ''Q6''])"
    using a
    by (cases "get_entities echo_api empty_world [''P31'', ''Q5'', ''P31'', ''Q6'']")
      (auto simp: load_dependencies_def split: sum.splits)
  then have c: "resolved (snd (load_dependencies echo_api empty_world repeat_doc))
       = [[''P31'', ''Q5'', ''P31'', ''Q6'']]"
    by (simp add: get_entities_resolved empty_world_def)
  show ?thesis using a b c by simp
qed

text \<open>
  Claim C7. \<open>parse_snak\<close> returns \<open>None\<close> exactly when the snak's datatype is not in
  \<open>INTERESTING_DATA_TYPES\<close> or its snaktype is not \<open>value\<close>. It then raises nothing and
  leaves the world as it is, the statement of such a main snak yields nothing in \<open>claims\<close>,
  and such a qualifier snak adds nothing to the qualifiers.
\<close>

theorem parse_snak_none_exactly:
  "((fst (parse_snak api w s) = Inr None)
      = (data_type s \<notin> set INTERESTING_DATA_TYPES \<or> snaktype s \<noteq> ''value''))
   \<and> ((data_type s \<notin> set INTERESTING_DATA_TYPES \<or> snaktype s \<noteq> ''value'') \<longrightarrow>
        parse_snak api w s = (Inr None, w)
        \<and> snaks_loop api w (s # snaks) qs = snaks_loop api w snaks qs)
   \<and> ((data_type (mainsnak claim) \<notin> set INTERESTING_DATA_TYPES
         \<or> snaktype (mainsnak claim) \<noteq> ''value'') \<longrightarrow>
        claims_loop api w (claim # rest) = claims_loop api w rest)"
  using parse_snak_none_iff[of api w s] parse_snak_skips[of s api w]
    parse_snak_skips[of "mainsnak claim" api w]
  by auto

theorem parse_snak_none_exactly_witness:
  "data_type external_snak = ''external-id''
   \<and> parse_snak down_api empty_world external_snak = (Inr None, empty_world)
   \<and> snaktype somevalue_snak = ''somevalue''
   \<and> parse_snak down_api empty_world somevalue_snak = (Inr None, empty_world)
   \<and> claims_loop down_api empty_world [unqualified external_snak] = (Inr [], empty_world)"
proof -
  have a: "data_type external_snak \<notin> set INTERESTING_DATA_TYPES
           \<or> snaktype external_snak \<noteq> ''value''"
    by (simp add: external_snak_def INTERESTING_DATA_TYPES_def WIKIBASE_ITEM_DATA_TYPE_def)
  have b: "data_type somevalue_snak \<notin> set INTERESTING_DATA_TYPES
           \<or> snaktype somevalue_snak \<noteq> ''value''"
    by (simp add: somevalue_snak_def)
  have c: "mainsnak (unqualified external_snak) = external_snak"
    by (simp add: unqualified_def)
  have d: "data_type external_snak = ''external-id''" "snaktype somevalue_snak = ''somevalue''"
    by (simp_all add: external_snak_def somevalue_snak_def)
  have "parse_snak down_api empty_world external_snak = (Inr None, empty_world)"
    using a parse_snak_none_exactly[of down_api empty_world external_snak] by blast
  moreover have "parse_snak down_api empty_world somevalue_snak = (Inr None, empty_world)"
    using b parse_snak_none_exactly[of down_api empty_world somevalue_snak] by blast
  moreover have "claims_loop down_api empty_world [unqualified external_snak]
                   = claims_loop down_api empty_world []"
    using a c
      parse_snak_none_exactly[of down_api empty_world external_snak _ _
        "unqualified external_snak" "[]"]
    by simp
  ultimately show ?thesis using d by simp
qed

text \<open>
  Claim C8 does not hold of the code. The branch that takes \<open>value["amount"]\<close> tests the
  datatype against \<open>"amount"\<close>, which is not in \<open>INTERESTING_DATA_TYPES\<close> and so never
  reaches that test; a snak of datatype \<open>"quantity"\<close> falls through to the last case and
  keeps the whole value object. Here the property \<open>P1082\<close> is fetched, and the tuple
  returned for the quantity \<open>+1\<close> holds the object with amount and unit, not \<open>"+1"\<close>.
\<close>

theorem parse_snak_quantity_raw:
  "''amount'' \<notin> set INTERESTING_DATA_TYPES
   \<and> fst (parse_snak echo_api empty_world quantity_snak)
       = Inr (Some (Some ''P1082'', PQuantity ''+1'' ''1''))
   \<and> fst (parse_snak echo_api empty_world quantity_snak)
       \<noteq> Inr (Some (Some ''P1082'', PStr ''+1''))"
  by (simp add: amount_not_interesting quantity_eval)



text \<open>
  Claim C10. \<open>load_dependencies\<close> reads \<open>snak["datavalue"]\<close> of a main snak of the
  item-reference type whatever its snaktype: a statement whose main snak has that type and
  no \<open>"datavalue"\<close> ends the loop with \<open>KeyError\<close>. A qualifier snak whose snaktype is not
  \<open>value\<close> is skipped before anything is read from it. For the document whose only
  statement has the main snak \<open>P40\<close> with snaktype \<open>novalue\<close>, \<open>load_dependencies\<close> raises
  \<open>KeyError\<close> and the resolver is not called.
\<close>

theorem load_dependencies_novalue_mainsnak:
  "((data_type (mainsnak claim) = WIKIBASE_ITEM_DATA_TYPE \<and> datavalue (mainsnak claim) = None)
      \<longrightarrow> claim_loop (claim # rest) dependencies = Inl KeyError)
   \<and> (snaktype qualifier \<noteq> ''value'' \<longrightarrow>
        qualifier_loop (qualifier # qs) dependencies = qualifier_loop qs dependencies)
   \<and> load_dependencies api w novalue_doc = (Inl KeyError, w)"
proof -
  have "dependencies_of novalue_doc = Inl KeyError"
    by (simp add: dependencies_of_def novalue_doc_def unqualified_def novalue_snak_def
        INTERESTING_DATA_TYPES_def WIKIBASE_ITEM_DATA_TYPE_def snak_value_id_def snak_value_def)
  then have "load_dependencies api w novalue_doc = (Inl KeyError, w)"
    by (simp add: load_dependencies_def)
  then show ?thesis
    by (simp add: INTERESTING_DATA_TYPES_def snak_value_id_def snak_value_def)
qed

theorem load_dependencies_novalue_mainsnak_witness:
  "snaktype novalue_snak = ''novalue''
   \<and> claim_loop [unqualified novalue_snak] [] = Inl KeyError
   \<and> qualifier_loop [novalue_snak] [''P39''] = Inr [''P39'']"
proof -
  have a: "data_type (mainsnak (unqualified novalue_snak)) = WIKIBASE_ITEM_DATA_TYPE
           \<and> datavalue (mainsnak (unqualified novalue_snak)) = None"
    by (simp add: unqualified_def novalue_snak_def WIKIBASE_ITEM_DATA_TYPE_def)
  have b: "snaktype novalue_snak \<noteq> ''value''" "snaktype novalue_snak = ''novalue''"
    by (simp_all add: novalue_snak_def)
  have "claim_loop [unqualified novalue_snak] [] = Inl KeyError"
    using a load_dependencies_novalue_mainsnak[of "unqualified novalue_snak" "[]" "[]"]
    by blast
  moreover have "qualifier_loop [novalue_snak] [''P39''] = qualifier_loop [] [''P39'']"
    using b load_dependencies_novalue_mainsnak[of _ _ "[''P39'']" novalue_snak "[]"]
    by blast
  ultimately show ?thesis using b by simp
qed

end
